theory Spec2Isabelle
  imports Main "HOL-Library.Word" "HOL-Library.AList"
begin

unbundle bit_operations_syntax

section \<open>Frame codec (go-relay/twist.go)\<close>

type_synonym byte = "8 word"
type_synonym bytes = "byte list"
type_synonym uint64 = "64 word"

text \<open>
  Go's \<open>float64\<close> is carried by its IEEE-754 bit pattern.  \<open>math.Float64bits\<close> and
  \<open>math.Float64frombits\<close> reinterpret the 64 bits without changing them, so they are
  the selector and the constructor of the carrier type.
\<close>

datatype float64 = Float64frombits (Float64bits: uint64)

text \<open>\<open>x == 0\<close> on a float64 holds for both signed zeros.\<close>

definition float_is_zero :: "float64 \<Rightarrow> bool" where
  "float_is_zero x \<longleftrightarrow> Float64bits x = 0 \<or> Float64bits x = 0x8000000000000000"

text \<open>\<open>binary.LittleEndian.PutUint64\<close> and \<open>binary.LittleEndian.Uint64\<close> of the Go
  standard library, on an 8-byte slice.\<close>

definition PutUint64 :: "uint64 \<Rightarrow> bytes" where
  "PutUint64 v =
     [ucast v, ucast (drop_bit 8 v), ucast (drop_bit 16 v), ucast (drop_bit 24 v),
      ucast (drop_bit 32 v), ucast (drop_bit 40 v), ucast (drop_bit 48 v),
      ucast (drop_bit 56 v)]"

definition Uint64 :: "bytes \<Rightarrow> uint64" where
  "Uint64 b =
     ucast (b ! 0) OR push_bit 8 (ucast (b ! 1)) OR push_bit 16 (ucast (b ! 2)) OR
     push_bit 24 (ucast (b ! 3)) OR push_bit 32 (ucast (b ! 4)) OR
     push_bit 40 (ucast (b ! 5)) OR push_bit 48 (ucast (b ! 6)) OR
     push_bit 56 (ucast (b ! 7))"

text \<open>The slice expression \<open>data[lo:hi]\<close>, and a write of eight bytes into
  \<open>buf[off:off+8]\<close>.\<close>

definition slice :: "bytes \<Rightarrow> nat \<Rightarrow> nat \<Rightarrow> bytes" where
  "slice data lo hi = take (hi - lo) (drop lo data)"

definition put_at :: "bytes \<Rightarrow> nat \<Rightarrow> uint64 \<Rightarrow> bytes" where
  "put_at buf off v = take off buf @ PutUint64 v @ drop (off + 8) buf"

definition TwistMessageSize :: nat where
  "TwistMessageSize = 56"

definition TwistMessageSizeLegacy :: nat where
  "TwistMessageSizeLegacy = 48"

record Vector3 =
  X :: float64
  Y :: float64
  Z :: float64

record TwistMessage =
  Linear :: Vector3
  Angular :: Vector3
  Timestamp :: uint64

text \<open>\<open>ErrInvalidMessageSize\<close>, wrapped with the two expected sizes and the size
  received.\<close>

datatype codec_error = ErrInvalidMessageSize nat nat nat

text \<open>\<open>uint64(time.Now().UnixMilli())\<close>: the clock reading is an argument, and the
  conversion from int64 keeps the low 64 bits.\<close>

definition uint64_of_millis :: "int \<Rightarrow> uint64" where
  "uint64_of_millis now = word_of_int now"

definition EncodeTwist :: "int \<Rightarrow> TwistMessage \<Rightarrow> bytes" where
  "EncodeTwist now twist =
     (let buf = replicate TwistMessageSize (0 :: byte);
          buf = put_at buf 0 (Float64bits (X (Linear twist)));
          buf = put_at buf 8 (Float64bits (Y (Linear twist)));
          buf = put_at buf 16 (Float64bits (Z (Linear twist)));
          buf = put_at buf 24 (Float64bits (X (Angular twist)));
          buf = put_at buf 32 (Float64bits (Y (Angular twist)));
          buf = put_at buf 40 (Float64bits (Z (Angular twist)));
          ts = Timestamp twist;
          ts = (if ts = 0 then uint64_of_millis now else ts)
      in put_at buf 48 ts)"

definition DecodeTwist :: "bytes \<Rightarrow> codec_error + TwistMessage" where
  "DecodeTwist data =
     (if length data \<noteq> TwistMessageSize \<and> length data \<noteq> TwistMessageSizeLegacy
      then Inl (ErrInvalidMessageSize TwistMessageSize TwistMessageSizeLegacy (length data))
      else
        let lin = \<lparr> X = Float64frombits (Uint64 (slice data 0 8)),
                    Y = Float64frombits (Uint64 (slice data 8 16)),
                    Z = Float64frombits (Uint64 (slice data 16 24)) \<rparr>;
            ang = \<lparr> X = Float64frombits (Uint64 (slice data 24 32)),
                    Y = Float64frombits (Uint64 (slice data 32 40)),
                    Z = Float64frombits (Uint64 (slice data 40 48)) \<rparr>;
            ts = (if length data \<ge> TwistMessageSize then Uint64 (slice data 48 56) else 0)
        in Inr \<lparr> Linear = lin, Angular = ang, Timestamp = ts \<rparr>)"

text \<open>\<open>GetLatencyMs\<close>: signed 64-bit milliseconds, zero for an absent timestamp.\<close>

definition GetLatencyMs :: "int \<Rightarrow> TwistMessage \<Rightarrow> int" where
  "GetLatencyMs now t =
     (if Timestamp t = 0 then 0
      else sint ((word_of_int now :: uint64) - Timestamp t))"

definition IsZero :: "TwistMessage \<Rightarrow> bool" where
  "IsZero t \<longleftrightarrow>
     float_is_zero (X (Linear t)) \<and> float_is_zero (Y (Linear t)) \<and>
     float_is_zero (Z (Linear t)) \<and> float_is_zero (X (Angular t)) \<and>
     float_is_zero (Y (Angular t)) \<and> float_is_zero (Z (Angular t))"


section \<open>Log lines\<close>

text \<open>Every \<open>log.Printf\<close> of the relay is one structured entry, carrying the arguments
  of its format string.\<close>

datatype LogEntry =
    LogCreatedPeer string string
      \<comment> \<open>\<open>[PeerManager] Created peer %s (type: %s)\<close>\<close>
  | LogRemovedPeer string
      \<comment> \<open>\<open>[PeerManager] Removed peer %s\<close>\<close>
  | LogNonTwist string nat
      \<comment> \<open>\<open>[Router] Non-Twist message from %s (%d bytes)\<close>\<close>
  | LogRouterTwist string TwistMessage
      \<comment> \<open>\<open>[Router] Twist from %s: %s\<close>\<close>
  | LogForwardedPython nat
      \<comment> \<open>\<open>[Router] Forwarded to %d Python client(s)\<close>\<close>
  | LogForwardedWeb nat
      \<comment> \<open>\<open>[Router] Forwarded to %d web client(s)\<close>\<close>
  | LogInvalidTwist string codec_error
      \<comment> \<open>\<open>[WS-Data] Invalid twist data from %s: %v\<close>\<close>
  | LogWSTwist string string TwistMessage int
      \<comment> \<open>\<open>[WS-Data] Twist from %s (type: %s): lin.y=%.2f, ang.z=%.2f, latency=%dms\<close>\<close>
  | LogBridged nat string
      \<comment> \<open>\<open>[WS-Data] Bridged to %d WebRTC %s client(s)\<close>\<close>
  | LogSendBufferFull string
      \<comment> \<open>\<open>[WS-Data] Send buffer full for %s\<close>\<close>
  | LogUnknownType string
      \<comment> \<open>\<open>[WS-Data] Unknown message type: %s\<close>\<close>
  | LogUpgradeError string
      \<comment> \<open>\<open>[WS-Data] Upgrade error: %v\<close>\<close>
  | LogClientConnected string string
      \<comment> \<open>\<open>[WS-Data] Client connected: %s (type: %s)\<close>\<close>
  | LogClientDisconnected string
      \<comment> \<open>\<open>[WS-Data] Client disconnected: %s\<close>\<close>
  | LogReadError string string
      \<comment> \<open>\<open>[WS-Data] Read error from %s: %v\<close>\<close>
  | LogParseError string
      \<comment> \<open>\<open>[WS-Data] Parse error: %v\<close>\<close>
  | LogOfferProcessed string string
      \<comment> \<open>\<open>[Signaling] Offer processed for peer %s (type: %s)\<close>\<close>

section \<open>Peers of the datagram transport (go-relay/peer_manager.go)\<close>

type_synonym PeerType = string

definition PeerTypeWeb :: PeerType where
  "PeerTypeWeb = ''web''"

definition PeerTypePython :: PeerType where
  "PeerTypePython = ''python''"

text \<open>
  The pion objects are outside the repository.  A data channel is what the relay reads
  and does with it: its ready state, whether \<open>Send\<close> reports an error, and the frames
  \<open>Send\<close> has accepted.  A peer connection is the results its three signaling calls
  return and the local description it ends with.
\<close>

datatype DataChannelState =
  DataChannelStateConnecting | DataChannelStateOpen | DataChannelStateClosing
  | DataChannelStateClosed

fun DataChannelState_String :: "DataChannelState \<Rightarrow> string" where
  "DataChannelState_String DataChannelStateConnecting = ''connecting''"
| "DataChannelState_String DataChannelStateOpen = ''open''"
| "DataChannelState_String DataChannelStateClosing = ''closing''"
| "DataChannelState_String DataChannelStateClosed = ''closed''"

record DataChannel =
  ReadyState :: DataChannelState
  SendErr :: "string option"
  Sent :: "bytes list"

record PeerConnection =
  SetRemoteDescriptionErr :: "string option"
  CreateAnswerErr :: "string option"
  SetLocalDescriptionErr :: "string option"
  LocalDescriptionSDP :: string

text \<open>\<open>Connection\<close> is never nil: \<open>CreatePeer\<close> is the only constructor of a
  \<open>Peer\<close> and sets it.  \<open>DataChannel\<close> is nil until \<open>setupDataChannel\<close>.\<close>

record Peer =
  ID :: string
  Type :: PeerType
  Connection :: PeerConnection
  DataChannel :: "DataChannel option"

section \<open>Clients of the socket transport (go-relay/websocket.go)\<close>

record DataMessage =
  msg_Type :: string
  msg_PeerID :: string
  msg_PeerType :: string
  msg_Data :: bytes
  msg_Timestamp :: int

text \<open>What travels on a client's \<open>Send\<close> channel: a raw frame, or the JSON encoding
  of a \<open>DataMessage\<close>.\<close>

datatype payload = Frame bytes | Envelope DataMessage

text \<open>\<open>WSClient_ID\<close> is the field \<open>ID\<close> of \<open>WSClient\<close>.  \<open>Send\<close> is the content
  of the buffered channel, oldest first, and \<open>SendCap\<close> the capacity it was made
  with.  The socket \<open>Conn\<close> is owned by the two pumps and is passed to them on its
  own.\<close>

record WSClient =
  WSClient_ID :: string
  PeerType :: string
  Send :: "payload list"
  SendCap :: nat

record WSConn =
  ReadDeadline :: int
  WriteDeadline :: int
  ConnClosed :: bool

record RouterStats =
  MessagesReceived :: uint64
  MessagesForwarded :: uint64
  ParseErrors :: uint64

text \<open>
  The process state: \<open>PeerManager.peers\<close> and \<open>WSManager.dataClients\<close> (Go maps, as
  association lists whose order is one iteration order of the map), the router's
  counters, whether the three optional links are set (\<open>mr.wsManager\<close>, \<open>m.router\<close>,
  \<open>m.peerManager\<close>), and the log.
\<close>

record Relay =
  peers :: "(string \<times> Peer) list"
  dataClients :: "(string \<times> WSClient) list"
  stats :: RouterStats
  wsManager_set :: bool
  router_set :: bool
  peerManager_set :: bool
  logged :: "LogEntry list"

definition log_Printf :: "LogEntry \<Rightarrow> Relay \<Rightarrow> Relay" where
  "log_Printf e s = s\<lparr>logged := logged s @ [e]\<rparr>"

text \<open>The state \<open>main\<close> builds: empty registries, zero counters, every link set.\<close>

definition NewRelay :: Relay where
  "NewRelay =
     \<lparr> peers = [], dataClients = [],
       stats = \<lparr> MessagesReceived = 0, MessagesForwarded = 0, ParseErrors = 0 \<rparr>,
       wsManager_set = True, router_set = True, peerManager_set = True, logged = [] \<rparr>"

subsection \<open>PeerManager\<close>

text \<open>\<open>CreatePeer\<close>: the result of \<open>NewPeerConnection\<close> and the fresh
  \<open>uuid.New().String()[:8]\<close> are arguments.\<close>

definition CreatePeer ::
  "string + PeerConnection \<Rightarrow> string \<Rightarrow> PeerType \<Rightarrow> Relay \<Rightarrow> string + (Peer \<times> Relay)" where
  "CreatePeer newpc peerID peerType s =
     (case newpc of
        Inl err \<Rightarrow> Inl (''failed to create peer connection: '' @ err)
      | Inr pc \<Rightarrow>
          let peer = \<lparr> ID = peerID, Type = peerType, Connection = pc, DataChannel = None \<rparr>;
              s = s\<lparr>peers := AList.update peerID peer (peers s)\<rparr>
          in Inr (peer, log_Printf (LogCreatedPeer peerID peerType) s))"

text \<open>\<open>setupDataChannel\<close> stores the channel in the peer.\<close>

definition setupDataChannel :: "string \<Rightarrow> DataChannel \<Rightarrow> Relay \<Rightarrow> Relay" where
  "setupDataChannel peerID dc s =
     (case map_of (peers s) peerID of
        None \<Rightarrow> s
      | Some peer \<Rightarrow> s\<lparr>peers := AList.update peerID (peer\<lparr>DataChannel := Some dc\<rparr>) (peers s)\<rparr>)"

definition GetPeer :: "Relay \<Rightarrow> string \<Rightarrow> Peer option" where
  "GetPeer s peerID = map_of (peers s) peerID"

definition GetPeersByType :: "Relay \<Rightarrow> PeerType \<Rightarrow> Peer list" where
  "GetPeersByType s peerType = filter (\<lambda>peer. Type peer = peerType) (map snd (peers s))"

definition RemovePeer :: "string \<Rightarrow> Relay \<Rightarrow> Relay" where
  "RemovePeer peerID s =
     (case map_of (peers s) peerID of
        None \<Rightarrow> s
      | Some peer \<Rightarrow>
          log_Printf (LogRemovedPeer peerID) (s\<lparr>peers := AList.delete peerID (peers s)\<rparr>))"

text \<open>\<open>SendToPeer\<close> returns the error, if any, and the state after the send.\<close>

definition SendToPeer :: "string \<Rightarrow> bytes \<Rightarrow> Relay \<Rightarrow> string option \<times> Relay" where
  "SendToPeer peerID data s =
     (case GetPeer s peerID of
        None \<Rightarrow> (Some (''peer '' @ peerID @ '' not found''), s)
      | Some peer \<Rightarrow>
          (case DataChannel peer of
             None \<Rightarrow> (Some (''peer '' @ peerID @ '' has no data channel''), s)
           | Some dc \<Rightarrow>
               if ReadyState dc \<noteq> DataChannelStateOpen
               then (Some (''data channel not open (state: '' @
                           DataChannelState_String (ReadyState dc) @ '')''), s)
               else (case SendErr dc of
                       Some err \<Rightarrow> (Some err, s)
                     | None \<Rightarrow>
                         (None,
                          s\<lparr>peers :=
                              AList.update peerID
                                (peer\<lparr>DataChannel := Some (dc\<lparr>Sent := Sent dc @ [data]\<rparr>)\<rparr>)
                                (peers s)\<rparr>))))"

text \<open>\<open>PeerManager.BroadcastToType\<close> (here \<open>PM_BroadcastToType\<close>; the method of
  the same name of \<open>WSManager\<close> is \<open>WS_BroadcastToType\<close>) and its loop over the
  snapshot of peers.\<close>

fun PM_broadcast_loop :: "Peer list \<Rightarrow> bytes \<Rightarrow> nat \<Rightarrow> Relay \<Rightarrow> nat \<times> Relay" where
  "PM_broadcast_loop [] data sent s = (sent, s)"
| "PM_broadcast_loop (peer # rest) data sent s =
     (case SendToPeer (ID peer) data s of
        (None, s') \<Rightarrow> PM_broadcast_loop rest data (sent + 1) s'
      | (Some err, s') \<Rightarrow> PM_broadcast_loop rest data sent s')"

definition PM_BroadcastToType :: "PeerType \<Rightarrow> bytes \<Rightarrow> Relay \<Rightarrow> nat \<times> Relay" where
  "PM_BroadcastToType peerType data s =
     PM_broadcast_loop (GetPeersByType s peerType) data 0 s"

subsection \<open>WSManager\<close>

text \<open>\<open>select { case client.Send <- data: ... default: ... }\<close>: the send goes through
  when the buffer has room, and the default branch runs otherwise.\<close>

definition try_send :: "payload \<Rightarrow> WSClient \<Rightarrow> WSClient option" where
  "try_send item client =
     (if length (Send client) < SendCap client
      then Some (client\<lparr>Send := Send client @ [item]\<rparr>)
      else None)"

text \<open>The loop of \<open>forwardData\<close> over \<open>m.dataClients\<close>: the clients after the loop,
  the count \<open>forwarded\<close> and the lines logged.\<close>

fun forwardData_loop ::
  "string \<Rightarrow> string \<Rightarrow> bytes \<Rightarrow> (string \<times> WSClient) list \<Rightarrow>
     (string \<times> WSClient) list \<times> nat \<times> LogEntry list" where
  "forwardData_loop senderID targetType data [] = ([], 0, [])"
| "forwardData_loop senderID targetType data ((k, client) # rest) =
     (let (rest', forwarded, lg) = forwardData_loop senderID targetType data rest
      in if WSClient_ID client \<noteq> senderID \<and> PeerType client = targetType
         then (case try_send (Frame data) client of
                 Some client' \<Rightarrow> ((k, client') # rest', forwarded + 1, lg)
               | None \<Rightarrow>
                   ((k, client) # rest', forwarded,
                    LogSendBufferFull (WSClient_ID client) # lg))
         else ((k, client) # rest', forwarded, lg))"

definition add_forwarded :: "nat \<Rightarrow> Relay \<Rightarrow> Relay" where
  "add_forwarded n s =
     s\<lparr>stats := (stats s)\<lparr>MessagesForwarded := MessagesForwarded (stats s) + of_nat n\<rparr>\<rparr>"

definition forwardData :: "string \<Rightarrow> string \<Rightarrow> bytes \<Rightarrow> Relay \<Rightarrow> Relay" where
  "forwardData senderID senderType data s =
     (let targetType = (if senderType = ''python'' then ''web'' else ''python'');
          (clients, forwarded, lg) =
             forwardData_loop senderID targetType data (dataClients s);
          s = s\<lparr>dataClients := clients, logged := logged s @ lg\<rparr>
      in if router_set s \<and> forwarded > 0 then add_forwarded forwarded s else s)"

text \<open>The loop of \<open>WSManager.BroadcastToType\<close>.\<close>

fun WS_broadcast_loop ::
  "string \<Rightarrow> bytes \<Rightarrow> (string \<times> WSClient) list \<Rightarrow>
     (string \<times> WSClient) list \<times> nat \<times> LogEntry list" where
  "WS_broadcast_loop targetType data [] = ([], 0, [])"
| "WS_broadcast_loop targetType data ((k, client) # rest) =
     (let (rest', sent, lg) = WS_broadcast_loop targetType data rest
      in if PeerType client = targetType
         then (case try_send (Frame data) client of
                 Some client' \<Rightarrow> ((k, client') # rest', sent + 1, lg)
               | None \<Rightarrow>
                   ((k, client) # rest', sent, LogSendBufferFull (WSClient_ID client) # lg))
         else ((k, client) # rest', sent, lg))"

definition WS_BroadcastToType :: "string \<Rightarrow> bytes \<Rightarrow> Relay \<Rightarrow> nat \<times> Relay" where
  "WS_BroadcastToType targetType data s =
     (let (clients, sent, lg) = WS_broadcast_loop targetType data (dataClients s)
      in (sent, s\<lparr>dataClients := clients, logged := logged s @ lg\<rparr>))"

definition removeDataClient :: "string \<Rightarrow> Relay \<Rightarrow> Relay" where
  "removeDataClient cid s =
     (case map_of (dataClients s) cid of
        None \<Rightarrow> s
      | Some client \<Rightarrow>
          log_Printf (LogClientDisconnected cid)
            (s\<lparr>dataClients := AList.delete cid (dataClients s)\<rparr>))"


text \<open>
  A plain channel send \<open>c.Send <- item\<close> by the goroutine of client \<open>c\<close>: it returns
  when the buffer has room, blocks while the buffer is full, and panics on the closed
  channel of a client that \<open>removeDataClient\<close> has taken out of the map.
\<close>

datatype 'a outcome = Returns 'a | BlocksOnSend | PanicsOnClosedChannel

definition blocking_send :: "string \<Rightarrow> payload \<Rightarrow> Relay \<Rightarrow> Relay outcome" where
  "blocking_send cid item s =
     (case map_of (dataClients s) cid of
        None \<Rightarrow> PanicsOnClosedChannel
      | Some client \<Rightarrow>
          (case try_send item client of
             None \<Rightarrow> BlocksOnSend
           | Some client' \<Rightarrow>
               Returns (s\<lparr>dataClients := AList.update cid client' (dataClients s)\<rparr>)))"

text \<open>\<open>HandleDataWS\<close>: the error of the upgrade (if any), the \<open>type\<close> query
  parameter, the fresh \<open>uuid.New().String()[:8]\<close> and the clock in milliseconds are
  arguments.  The two pumps it starts are \<open>readPumpData\<close> and \<open>writePumpData\<close>
  below.\<close>

definition HandleDataWS ::
  "string option \<Rightarrow> string \<Rightarrow> string \<Rightarrow> int \<Rightarrow> Relay \<Rightarrow> Relay outcome" where
  "HandleDataWS upgradeErr typeParam clientID unixMilli s =
     (case upgradeErr of
        Some err \<Rightarrow> Returns (log_Printf (LogUpgradeError err) s)
      | None \<Rightarrow>
          let peerType = (if typeParam = [] then ''web'' else typeParam);
              client = \<lparr> WSClient_ID = clientID, PeerType = peerType, Send = [],
                         SendCap = 256 \<rparr>;
              s = s\<lparr>dataClients := AList.update clientID client (dataClients s)\<rparr>;
              s = log_Printf (LogClientConnected clientID peerType) s;
              welcome = \<lparr> msg_Type = ''welcome'', msg_PeerID = clientID,
                          msg_PeerType = peerType, msg_Data = [],
                          msg_Timestamp = unixMilli \<rparr>
          in blocking_send clientID (Envelope welcome) s)"

text \<open>The receive \<open>message, ok := <-c.Send\<close> of \<open>writePumpData\<close> on the channel of a
  registered client: the oldest pending item leaves the buffer.\<close>

definition writePump_recv :: "string \<Rightarrow> Relay \<Rightarrow> payload option \<times> Relay" where
  "writePump_recv cid s =
     (case map_of (dataClients s) cid of
        None \<Rightarrow> (None, s)
      | Some client \<Rightarrow>
          (case Send client of
             [] \<Rightarrow> (None, s)
           | item # rest \<Rightarrow>
               (Some item,
                s\<lparr>dataClients := AList.update cid (client\<lparr>Send := rest\<rparr>) (dataClients s)\<rparr>)))"

section \<open>Router (MessageRouter)\<close>

definition inc_received :: "Relay \<Rightarrow> Relay" where
  "inc_received s =
     s\<lparr>stats := (stats s)\<lparr>MessagesReceived := MessagesReceived (stats s) + 1\<rparr>\<rparr>"

definition inc_parse_errors :: "Relay \<Rightarrow> Relay" where
  "inc_parse_errors s =
     s\<lparr>stats := (stats s)\<lparr>ParseErrors := ParseErrors (stats s) + 1\<rparr>\<rparr>"

text \<open>One arm of the \<open>switch from.Type\<close> of \<open>HandleMessage\<close>: the datagram broadcast,
  then the socket broadcast when \<open>mr.wsManager\<close> is set, then the summary line.\<close>

definition route_to :: "PeerType \<Rightarrow> string \<Rightarrow> (nat \<Rightarrow> LogEntry) \<Rightarrow> bytes \<Rightarrow> Relay \<Rightarrow> Relay" where
  "route_to peerType wsType summary data s =
     (let (sent, s) = PM_BroadcastToType peerType data s;
          s = add_forwarded sent s;
          (sent, s) =
            (if wsManager_set s
             then let (wsSent, s) = WS_BroadcastToType wsType data s;
                      s = add_forwarded wsSent s
                  in (sent + wsSent, s)
             else (sent, s))
      in if sent > 0 then log_Printf (summary sent) s else s)"

definition HandleMessage :: "Peer \<Rightarrow> bytes \<Rightarrow> Relay \<Rightarrow> Relay" where
  "HandleMessage origin data s =
     (let s = inc_received s
      in case DecodeTwist data of
           Inl err \<Rightarrow>
             inc_parse_errors (log_Printf (LogNonTwist (ID origin) (length data)) s)
         | Inr twist \<Rightarrow>
             let s = (if \<not> IsZero twist
                      then log_Printf (LogRouterTwist (ID origin) twist) s else s)
             in if Type origin = PeerTypeWeb
                then route_to PeerTypePython ''python'' LogForwardedPython data s
                else if Type origin = PeerTypePython
                then route_to PeerTypeWeb ''web'' LogForwardedWeb data s
                else s)"

section \<open>Socket inbound path\<close>

definition handleBinaryData :: "int \<Rightarrow> WSClient \<Rightarrow> bytes \<Rightarrow> Relay \<Rightarrow> Relay" where
  "handleBinaryData unixMilli c data s =
     (let s = (if router_set s then inc_received s else s)
      in case DecodeTwist data of
           Inl err \<Rightarrow> log_Printf (LogInvalidTwist (WSClient_ID c) err) s
         | Inr twist \<Rightarrow>
             let latency = GetLatencyMs unixMilli twist;
                 s = (if \<not> IsZero twist
                      then log_Printf (LogWSTwist (WSClient_ID c) (PeerType c) twist latency) s
                      else s);
                 s = forwardData (WSClient_ID c) (PeerType c) data s
             in if peerManager_set s
                then let targetType =
                           (if PeerType c = ''web'' then PeerTypePython else PeerTypeWeb);
                         (sent, s) = PM_BroadcastToType targetType data s
                     in if sent > 0
                        then let s = log_Printf (LogBridged sent targetType) s
                             in if router_set s then add_forwarded sent s else s
                        else s
                else s)"

definition handleDataMessage :: "int \<Rightarrow> WSClient \<Rightarrow> DataMessage \<Rightarrow> Relay \<Rightarrow> Relay outcome" where
  "handleDataMessage unixMilli c msg s =
     (if msg_Type msg = ''twist''
      then Returns (forwardData (WSClient_ID c) (PeerType c) (msg_Data msg) s)
      else if msg_Type msg = ''ping''
      then let pong = \<lparr> msg_Type = ''pong'', msg_PeerID = WSClient_ID c, msg_PeerType = [],
                        msg_Data = [], msg_Timestamp = unixMilli \<rparr>
           in blocking_send (WSClient_ID c) (Envelope pong) s
      else Returns (log_Printf (LogUnknownType (msg_Type msg)) s))"

section \<open>Keepalive (the two pumps of a data client)\<close>

text \<open>\<open>time.Duration\<close> and clock readings are nanoseconds.\<close>

definition Second :: int where
  "Second = 1000000000"

definition pingInterval :: int where
  "pingInterval = 30 * Second"

definition pongTimeout :: int where
  "pongTimeout = 10 * Second"

definition writeTimeout :: int where
  "writeTimeout = 10 * Second"

text \<open>
  What the socket library (gorilla/websocket, outside the repository) hands to
  \<open>readPumpData\<close>, with its arrival time: a pong control frame, for which
  \<open>ReadMessage\<close> runs the pong handler and goes on reading; a binary message; a text
  message with the result of \<open>json.Unmarshal\<close>; or a read error, with the result of
  \<open>IsUnexpectedCloseError\<close>.  A frame that arrives after the read deadline is never
  seen: \<open>ReadMessage\<close> fails with a timeout first.  So does the read after the last
  frame of the list, when the peer stays silent.
\<close>

datatype Inbound =
    InPong
  | InBinary bytes
  | InText "string + DataMessage"
  | InError string bool

definition unixMilli_of :: "int \<Rightarrow> int" where
  "unixMilli_of t = t div 1000000"

text \<open>The deferred function of \<open>readPumpData\<close>.\<close>

definition readPumpData_exit :: "WSClient \<Rightarrow> WSConn \<Rightarrow> Relay \<Rightarrow> Relay \<times> WSConn" where
  "readPumpData_exit c conn s = (removeDataClient (WSClient_ID c) s, conn\<lparr>ConnClosed := True\<rparr>)"

fun readPumpData_loop ::
  "WSClient \<Rightarrow> (int \<times> Inbound) list \<Rightarrow> WSConn \<Rightarrow> Relay \<Rightarrow> (Relay \<times> WSConn) outcome" where
  "readPumpData_loop c [] conn s = Returns (readPumpData_exit c conn s)"
| "readPumpData_loop c ((t, ev) # rest) conn s =
     (if ReadDeadline conn < t then Returns (readPumpData_exit c conn s)
      else case ev of
             InPong \<Rightarrow>
               readPumpData_loop c rest (conn\<lparr>ReadDeadline := t + (pongTimeout + pingInterval)\<rparr>) s
           | InError err unexpected \<Rightarrow>
               Returns (readPumpData_exit c conn
                  (if unexpected then log_Printf (LogReadError (WSClient_ID c) err) s else s))
           | InBinary message \<Rightarrow>
               readPumpData_loop c rest conn (handleBinaryData (unixMilli_of t) c message s)
           | InText (Inl err) \<Rightarrow>
               readPumpData_loop c rest conn (log_Printf (LogParseError err) s)
           | InText (Inr msg) \<Rightarrow>
               (case handleDataMessage (unixMilli_of t) c msg s of
                  Returns s' \<Rightarrow> readPumpData_loop c rest conn s'
                | BlocksOnSend \<Rightarrow> BlocksOnSend
                | PanicsOnClosedChannel \<Rightarrow> PanicsOnClosedChannel))"

text \<open>\<open>readPumpData\<close>, started at time \<open>now\<close>.\<close>

definition readPumpData ::
  "WSClient \<Rightarrow> int \<Rightarrow> (int \<times> Inbound) list \<Rightarrow> WSConn \<Rightarrow> Relay \<Rightarrow> (Relay \<times> WSConn) outcome" where
  "readPumpData c now events conn s =
     readPumpData_loop c events (conn\<lparr>ReadDeadline := now + (pongTimeout + pingInterval)\<rparr>) s"

text \<open>The ticker of \<open>writePumpData\<close>, made at time \<open>start\<close> by
  \<open>time.NewTicker(pingInterval)\<close>: the time of its \<open>n\<close>-th tick.\<close>

definition ticker_tick :: "int \<Rightarrow> nat \<Rightarrow> int" where
  "ticker_tick start n = start + int n * pingInterval"

text \<open>
  One round of the \<open>select\<close> of \<open>writePumpData\<close> at time \<open>now\<close>: the branch taken
  (a receive from \<open>c.Send\<close>, with \<open>None\<close> for the closed channel, or a tick) and the
  error, if any, that \<open>WriteMessage\<close> returns.  The result says whether the loop goes
  on, which frames were written, and the connection, closed by the deferred function
  when the loop ends.  On the closed channel the close frame is attempted and the
  result of the write ignored: the frame is written only when the write succeeds.
\<close>

datatype Selected = Received "payload option" | Ticked

datatype WSFrame = CloseFrame | BinaryFrame payload | TextFrame payload | PingFrame

text \<open>\<open>len(message) > 0 && message[0] != '{'\<close>; the JSON encoding of an envelope
  starts with a brace.\<close>

fun is_binary :: "payload \<Rightarrow> bool" where
  "is_binary (Frame data) \<longleftrightarrow> data \<noteq> [] \<and> hd data \<noteq> 0x7B"
| "is_binary (Envelope msg) \<longleftrightarrow> False"

definition writePumpData_step ::
  "int \<Rightarrow> Selected \<Rightarrow> string option \<Rightarrow> WSConn \<Rightarrow> bool \<times> WSFrame list \<times> WSConn" where
  "writePumpData_step now sel writeErr conn =
     (let conn = conn\<lparr>WriteDeadline := now + writeTimeout\<rparr>
      in case sel of
           Received None \<Rightarrow>
             (False, (case writeErr of None \<Rightarrow> [CloseFrame] | Some err \<Rightarrow> []),
              conn\<lparr>ConnClosed := True\<rparr>)
         | Received (Some message) \<Rightarrow>
             (case writeErr of
                Some err \<Rightarrow> (False, [], conn\<lparr>ConnClosed := True\<rparr>)
              | None \<Rightarrow>
                  (True,
                   [if is_binary message then BinaryFrame message else TextFrame message],
                   conn))
         | Ticked \<Rightarrow>
             (case writeErr of
                Some err \<Rightarrow> (False, [], conn\<lparr>ConnClosed := True\<rparr>)
              | None \<Rightarrow> (True, [PingFrame], conn)))"

section \<open>Signaling (POST /offer)\<close>

record OfferRequest =
  req_SDP :: string
  req_Type :: string
  req_PeerType :: string

datatype ResponseBody =
    ErrorResponse string string
  | AnswerResponse string string string

record Response =
  StatusCode :: nat
  Body :: ResponseBody

definition sendError :: "nat \<Rightarrow> string \<Rightarrow> string \<Rightarrow> Response" where
  "sendError status message details =
     \<lparr> StatusCode = status, Body = ErrorResponse message details \<rparr>"

definition StatusOK :: nat where
  "StatusOK = 200"

definition StatusBadRequest :: nat where
  "StatusBadRequest = 400"

definition StatusMethodNotAllowed :: nat where
  "StatusMethodNotAllowed = 405"

definition StatusInternalServerError :: nat where
  "StatusInternalServerError = 500"

text \<open>\<open>handleOffer\<close>: the request method, the result of decoding the JSON body, the
  result of \<open>NewPeerConnection\<close> and the fresh peer id are arguments.\<close>

definition handleOffer ::
  "string \<Rightarrow> string + OfferRequest \<Rightarrow> string + PeerConnection \<Rightarrow> string \<Rightarrow> Relay \<Rightarrow>
     Response \<times> Relay" where
  "handleOffer method body newpc peerID s =
     (if method \<noteq> ''POST''
      then (sendError StatusMethodNotAllowed ''Method not allowed'' ''Use POST'', s)
      else
       (case body of
          Inl err \<Rightarrow> (sendError StatusBadRequest ''Invalid JSON'' err, s)
        | Inr req \<Rightarrow>
           (let peerType =
                  (if req_PeerType req \<noteq> PeerTypeWeb \<and> req_PeerType req \<noteq> PeerTypePython
                   then PeerTypeWeb else req_PeerType req)
            in (case CreatePeer newpc peerID peerType s of
                  Inl err \<Rightarrow>
                    (sendError StatusInternalServerError ''Failed to create peer'' err, s)
                | Inr (peer, s) \<Rightarrow>
                   (case SetRemoteDescriptionErr (Connection peer) of
                      Some err \<Rightarrow>
                        (sendError StatusBadRequest ''Invalid SDP offer'' err,
                         RemovePeer (ID peer) s)
                    | None \<Rightarrow>
                   (case CreateAnswerErr (Connection peer) of
                      Some err \<Rightarrow>
                        (sendError StatusInternalServerError ''Failed to create answer'' err,
                         RemovePeer (ID peer) s)
                    | None \<Rightarrow>
                   (case SetLocalDescriptionErr (Connection peer) of
                      Some err \<Rightarrow>
                        (sendError StatusInternalServerError
                           ''Failed to set local description'' err,
                         RemovePeer (ID peer) s)
                    | None \<Rightarrow>
                        (\<lparr> StatusCode = StatusOK,
                           Body = AnswerResponse (LocalDescriptionSDP (Connection peer))
                                    ''answer'' (ID peer) \<rparr>,
                         log_Printf (LogOfferProcessed (ID peer) peerType) s))))))))"

section \<open>Reachable states\<close>

text \<open>
  The states of a running relay: \<open>main\<close> builds the first, and each step is one of the
  handlers above, run to completion: a socket upgrade, a binary or text message read by
  the pump of a registered client, the removal of a client, a receive by a write pump,
  an offer, a data channel announced for a peer, a message on the data channel of a
  registered peer, the removal of a peer.
\<close>

inductive reachable :: "Relay \<Rightarrow> bool" where
  at_start: "reachable NewRelay"
| on_upgrade: "reachable s \<Longrightarrow> HandleDataWS upgradeErr typeParam clientID unixMilli s = Returns s' \<Longrightarrow>
     reachable s'"
| on_binary: "reachable s \<Longrightarrow> map_of (dataClients s) k = Some c \<Longrightarrow>
     reachable (handleBinaryData unixMilli c data s)"
| on_text: "reachable s \<Longrightarrow> map_of (dataClients s) k = Some c \<Longrightarrow>
     handleDataMessage unixMilli c msg s = Returns s' \<Longrightarrow> reachable s'"
| on_disconnect: "reachable s \<Longrightarrow> reachable (removeDataClient cid s)"
| on_drain: "reachable s \<Longrightarrow> reachable (snd (writePump_recv cid s))"
| on_offer: "reachable s \<Longrightarrow> reachable (snd (handleOffer method body newpc peerID s))"
| on_channel: "reachable s \<Longrightarrow> reachable (setupDataChannel peerID dc s)"
| on_message: "reachable s \<Longrightarrow> map_of (peers s) k = Some origin \<Longrightarrow>
     reachable (HandleMessage origin data s)"
| on_remove: "reachable s \<Longrightarrow> reachable (RemovePeer peerID s)"

section \<open>Observations\<close>

text \<open>What a registered peer has been handed: the frames its data channel accepted, and
  the items pending in a data client's \<open>Send\<close> buffer; the role registered under an
  id.\<close>

definition peer_sent :: "Relay \<Rightarrow> string \<Rightarrow> bytes list" where
  "peer_sent s k =
     (case map_of (peers s) k of
        None \<Rightarrow> []
      | Some p \<Rightarrow> (case DataChannel p of None \<Rightarrow> [] | Some dc \<Rightarrow> Sent dc))"

definition client_queue :: "Relay \<Rightarrow> string \<Rightarrow> payload list" where
  "client_queue s k = (case map_of (dataClients s) k of None \<Rightarrow> [] | Some c \<Rightarrow> Send c)"

definition peer_role :: "Relay \<Rightarrow> string \<Rightarrow> PeerType option" where
  "peer_role s k = map_option Type (map_of (peers s) k)"

definition client_role :: "Relay \<Rightarrow> string \<Rightarrow> string option" where
  "client_role s k = map_option PeerType (map_of (dataClients s) k)"

text \<open>The two Go maps hold each record under its own id, once.\<close>

definition registry_ok :: "Relay \<Rightarrow> bool" where
  "registry_ok s \<longleftrightarrow>
     distinct (map fst (peers s)) \<and> list_all (\<lambda>(k, p). ID p = k) (peers s) \<and>
     distinct (map fst (dataClients s)) \<and>
     list_all (\<lambda>(k, c). WSClient_ID c = k) (dataClients s)"

text \<open>Every outbound buffer was made with capacity 256 and holds no more than that.\<close>

definition buffers_bounded :: "Relay \<Rightarrow> bool" where
  "buffers_bounded s \<longleftrightarrow>
     list_all (\<lambda>(k, c). SendCap c = 256 \<and> length (Send c) \<le> 256) (dataClients s)"

text \<open>The invariant of the reachable states.\<close>

definition relay_inv :: "Relay \<Rightarrow> bool" where
  "relay_inv s \<longleftrightarrow> registry_ok s \<and> buffers_bounded s"

text \<open>The effect of \<open>SendToPeer\<close> on the peer it finds, and of one iteration of a
  fan-out loop on one client.\<close>

definition accepts :: "Peer \<Rightarrow> bool" where
  "accepts p \<longleftrightarrow>
     (case DataChannel p of
        None \<Rightarrow> False
      | Some dc \<Rightarrow> ReadyState dc = DataChannelStateOpen \<and> SendErr dc = None)"

definition accept_frame :: "bytes \<Rightarrow> Peer \<Rightarrow> Peer" where
  "accept_frame data p =
     (if accepts p
      then p\<lparr>DataChannel := map_option (\<lambda>dc. dc\<lparr>Sent := Sent dc @ [data]\<rparr>) (DataChannel p)\<rparr>
      else p)"

definition enqueue_frame :: "bool \<Rightarrow> bytes \<Rightarrow> WSClient \<Rightarrow> WSClient" where
  "enqueue_frame eligible data c =
     (if eligible \<and> length (Send c) < SendCap c then c\<lparr>Send := Send c @ [Frame data]\<rparr>
      else c)"

definition fwd_target :: "string \<Rightarrow> string" where
  "fwd_target senderType = (if senderType = ''python'' then ''web'' else ''python'')"

definition bridge_target :: "string \<Rightarrow> PeerType" where
  "bridge_target peerType = (if peerType = ''web'' then PeerTypePython else PeerTypeWeb)"

text \<open>A receiving role lies across from the origin's: it is registered, it differs from
  the origin's role, and it is the robot role for a controller and the controller role
  for a robot.\<close>

definition opposite_role :: "string \<Rightarrow> string option \<Rightarrow> bool" where
  "opposite_role origin_role r \<longleftrightarrow>
     (case r of
        None \<Rightarrow> False
      | Some t \<Rightarrow>
          t \<noteq> origin_role \<and> (origin_role = ''web'' \<longrightarrow> t = ''python'') \<and>
          (origin_role = ''python'' \<longrightarrow> t = ''web''))"


section \<open>Sample inputs\<close>

text \<open>A frame with a signalling NaN, a quiet NaN, the smallest subnormal, negative zero,
  negative infinity and 1.5 in its six slots.\<close>

definition nan_frame :: TwistMessage where
  "nan_frame =
     \<lparr> Linear = \<lparr> X = Float64frombits 0x7FF0000000000001,
                  Y = Float64frombits 0x7FF8000000000000,
                  Z = Float64frombits 1 \<rparr>,
       Angular = \<lparr> X = Float64frombits 0x8000000000000000,
                   Y = Float64frombits 0xFFF0000000000000,
                   Z = Float64frombits 0x3FF8000000000000 \<rparr>,
       Timestamp = 1700000000000 \<rparr>"

text \<open>Two peers of the datagram transport with open channels and two data clients with
  empty buffers, one of each role; and a relay that holds controllers only.\<close>

definition open_channel :: DataChannel where
  "open_channel = \<lparr> ReadyState = DataChannelStateOpen, SendErr = None, Sent = [] \<rparr>"

definition quiet_connection :: PeerConnection where
  "quiet_connection =
     \<lparr> SetRemoteDescriptionErr = None, CreateAnswerErr = None,
       SetLocalDescriptionErr = None, LocalDescriptionSDP = ''v=0'' \<rparr>"

definition web_peer :: Peer where
  "web_peer =
     \<lparr> ID = ''w1'', Type = PeerTypeWeb, Connection = quiet_connection,
       DataChannel = Some open_channel \<rparr>"

definition py_peer :: Peer where
  "py_peer =
     \<lparr> ID = ''p1'', Type = PeerTypePython, Connection = quiet_connection,
       DataChannel = Some open_channel \<rparr>"

definition web_client :: WSClient where
  "web_client = \<lparr> WSClient_ID = ''c1'', PeerType = ''web'', Send = [], SendCap = 256 \<rparr>"

definition py_client :: WSClient where
  "py_client = \<lparr> WSClient_ID = ''c2'', PeerType = ''python'', Send = [], SendCap = 256 \<rparr>"

definition mixed_relay :: Relay where
  "mixed_relay =
     NewRelay\<lparr>peers := [(''w1'', web_peer), (''p1'', py_peer)],
              dataClients := [(''c1'', web_client), (''c2'', py_client)]\<rparr>"

definition controllers_only :: Relay where
  "controllers_only =
     NewRelay\<lparr>peers := [(''w1'', web_peer), (''w2'', web_peer\<lparr>ID := ''w2''\<rparr>)],
              dataClients := [(''c1'', web_client), (''c3'', web_client\<lparr>WSClient_ID := ''c3''\<rparr>)]\<rparr>"

text \<open>A legacy frame of 48 zero bytes, and three bytes that are no frame.\<close>

definition legacy_frame :: bytes where
  "legacy_frame = replicate 48 0"

definition short_frame :: bytes where
  "short_frame = [1, 2, 3]"

text \<open>A JSON envelope of type \<open>twist\<close> whose payload is no frame.\<close>

definition twist_envelope :: DataMessage where
  "twist_envelope =
     \<lparr> msg_Type = ''twist'', msg_PeerID = [], msg_PeerType = [], msg_Data = short_frame,
       msg_Timestamp = 0 \<rparr>"





text \<open>The relay after its first socket upgrade, for a robot; and a relay with two robot
  clients, the first with a full buffer.\<close>

definition first_robot :: Relay where
  "first_robot =
     NewRelay\<lparr>dataClients :=
                [(''r1'', \<lparr> WSClient_ID = ''r1'', PeerType = ''python'',
                           Send = [Envelope \<lparr> msg_Type = ''welcome'', msg_PeerID = ''r1'',
                                             msg_PeerType = ''python'', msg_Data = [],
                                             msg_Timestamp = 0 \<rparr>],
                           SendCap = 256 \<rparr>)],
              logged := [LogClientConnected ''r1'' ''python'']\<rparr>"

definition jammed_relay :: Relay where
  "jammed_relay =
     NewRelay\<lparr>peers := [(''w1'', web_peer)],
              dataClients :=
                [(''c2'', py_client\<lparr>Send := replicate 256 (Frame legacy_frame)\<rparr>),
                 (''c4'', py_client\<lparr>WSClient_ID := ''c4''\<rparr>)]\<rparr>"

text \<open>A fresh socket connection, and the data client of \<open>first_robot\<close>.\<close>

definition fresh_conn :: WSConn where
  "fresh_conn = \<lparr> ReadDeadline = 0, WriteDeadline = 0, ConnClosed = False \<rparr>"

definition robot_r1 :: WSClient where
  "robot_r1 = \<lparr> WSClient_ID = ''r1'', PeerType = ''python'', Send = [], SendCap = 256 \<rparr>"

section \<open>Frame codec: proofs\<close>

lemma byte_cases:
  assumes "n < (64::nat)"
  obtains "n < 8" | "8 \<le> n" "n < 16" | "16 \<le> n" "n < 24" | "24 \<le> n" "n < 32"
    | "32 \<le> n" "n < 40" | "40 \<le> n" "n < 48" | "48 \<le> n" "n < 56" | "56 \<le> n" "n < 64"
  using assms by linarith

lemma diff_less_8: "(n - k < (8::nat)) = (n < 8 + k)" "(n - k < (64::nat)) = (n < 64 + k)"
  by arith+

lemma byte_cover: 
  assumes n: "n < (64::nat)"
  shows "(n < 8 \<and> B \<or>
          8 \<le> n \<and> n - 8 < 64 \<and> n - 8 < 8 \<and> B \<or>
          16 \<le> n \<and> n - 16 < 64 \<and> n - 16 < 8 \<and> B \<or>
          24 \<le> n \<and> n - 24 < 64 \<and> n - 24 < 8 \<and> B \<or>
          32 \<le> n \<and> n - 32 < 64 \<and> n - 32 < 8 \<and> B \<or>
          40 \<le> n \<and> n - 40 < 64 \<and> n - 40 < 8 \<and> B \<or>
          48 \<le> n \<and> n - 48 < 64 \<and> n - 48 < 8 \<and> B \<or>
          56 \<le> n \<and> n - 56 < 64 \<and> n - 56 < 8 \<and> B) = B"
  using n by (rule byte_cases) (simp_all add: diff_less_8)

lemma Uint64_PutUint64: "Uint64 (PutUint64 v) = v"
  unfolding Uint64_def PutUint64_def
  apply simp
  apply (rule bit_word_eqI)
  apply (simp add: bit_simps byte_cover cong: conj_cong)
  done

lemma length_PutUint64: "length (PutUint64 v) = 8"
  by (simp add: PutUint64_def)

lemma length_put_at: "off + 8 \<le> length buf \<Longrightarrow> length (put_at buf off v) = length buf"
  by (simp add: put_at_def length_PutUint64)

lemma slice_put_at_same:
  "off + 8 \<le> length buf \<Longrightarrow> slice (put_at buf off v) off (off + 8) = PutUint64 v"
  by (simp add: put_at_def slice_def length_PutUint64)

lemma slice_put_at_before:
  "hi \<le> off \<Longrightarrow> off + 8 \<le> length buf \<Longrightarrow> slice (put_at buf off v) lo hi = slice buf lo hi"
  by (simp add: put_at_def slice_def length_PutUint64 drop_take min_absorb1)

lemma slice_put_at_same':
  "off + 8 \<le> length buf \<Longrightarrow> hi = off + 8 \<Longrightarrow> slice (put_at buf off v) off hi = PutUint64 v"
  by (simp add: slice_put_at_same)

lemma EncodeTwist_slices:
  "slice (EncodeTwist now t) 0 8 = PutUint64 (Float64bits (X (Linear t)))"
  "slice (EncodeTwist now t) 8 16 = PutUint64 (Float64bits (Y (Linear t)))"
  "slice (EncodeTwist now t) 16 24 = PutUint64 (Float64bits (Z (Linear t)))"
  "slice (EncodeTwist now t) 24 32 = PutUint64 (Float64bits (X (Angular t)))"
  "slice (EncodeTwist now t) 32 40 = PutUint64 (Float64bits (Y (Angular t)))"
  "slice (EncodeTwist now t) 40 48 = PutUint64 (Float64bits (Z (Angular t)))"
  "slice (EncodeTwist now t) 48 56 =
     PutUint64 (if Timestamp t = 0 then uint64_of_millis now else Timestamp t)"
  by (simp_all add: EncodeTwist_def Let_def TwistMessageSize_def slice_put_at_same'
      slice_put_at_before length_put_at)

lemma length_EncodeTwist: "length (EncodeTwist now t) = 56"
  by (simp add: EncodeTwist_def Let_def TwistMessageSize_def length_put_at)

lemma DecodeTwist_EncodeTwist:
  "DecodeTwist (EncodeTwist now t) =
     Inr (t\<lparr>Timestamp := (if Timestamp t = 0 then uint64_of_millis now else Timestamp t)\<rparr>)"
  by (simp add: DecodeTwist_def length_EncodeTwist EncodeTwist_slices Uint64_PutUint64
      TwistMessageSize_def TwistMessageSizeLegacy_def Let_def)

text \<open>
  Claim C4.  For a frame whose timestamp is not zero, the encoding has 56 bytes, decoding
  it gives the frame back, with the bit pattern of every double unchanged (NaN payloads
  and subnormals included), and encoding the decoded frame again, at any later clock
  reading, gives the same 56 bytes.
\<close>

theorem EncodeTwist_roundtrip:
  assumes "Timestamp f \<noteq> 0"
  shows "length (EncodeTwist now f) = 56 \<and>
         DecodeTwist (EncodeTwist now f) = Inr f \<and>
         map_sum id (EncodeTwist now') (DecodeTwist (EncodeTwist now f)) =
           Inr (EncodeTwist now f)"
proof -
  have dec: "DecodeTwist (EncodeTwist now f) = Inr f"
    using assms by (simp add: DecodeTwist_EncodeTwist)
  have "EncodeTwist now' f = EncodeTwist now f"
    using assms by (simp add: EncodeTwist_def)
  with dec show ?thesis
    by (simp add: length_EncodeTwist)
qed

theorem EncodeTwist_roundtrip_witness:
  "Timestamp nan_frame \<noteq> 0 \<and> length (EncodeTwist 5 nan_frame) = 56 \<and>
   DecodeTwist (EncodeTwist 5 nan_frame) = Inr nan_frame \<and>
   map_sum id (EncodeTwist 9) (DecodeTwist (EncodeTwist 5 nan_frame)) =
     Inr (EncodeTwist 5 nan_frame)"
proof -
  have ts: "Timestamp nan_frame \<noteq> 0"
    by (simp add: nan_frame_def)
  from ts EncodeTwist_roundtrip [OF ts, of 5 9] show ?thesis
    by (rule conjI)
qed

text \<open>
  Claim C5.  \<open>DecodeTwist\<close> fails with the invalid-size error, and returns no frame, on
  every input whose length is neither 48 nor 56, and succeeds on every input of length
  48 or 56.
\<close>

theorem DecodeTwist_size:
  "(length data \<noteq> 48 \<and> length data \<noteq> 56 \<longrightarrow>
      DecodeTwist data = Inl (ErrInvalidMessageSize 56 48 (length data))) \<and>
   (length data = 48 \<or> length data = 56 \<longrightarrow> (\<exists>t. DecodeTwist data = Inr t))"
  by (auto simp add: DecodeTwist_def TwistMessageSize_def TwistMessageSizeLegacy_def Let_def)

theorem DecodeTwist_size_witness:
  "DecodeTwist (replicate 47 0) = Inl (ErrInvalidMessageSize 56 48 47) \<and>
   DecodeTwist (replicate 57 0) = Inl (ErrInvalidMessageSize 56 48 57) \<and>
   (\<exists>t. DecodeTwist (replicate 48 0) = Inr t) \<and> (\<exists>t. DecodeTwist (replicate 56 0) = Inr t)"
  using DecodeTwist_size [of "replicate 47 0"] DecodeTwist_size [of "replicate 57 0"]
    DecodeTwist_size [of "replicate 48 0"] DecodeTwist_size [of "replicate 56 0"]
  by simp

text \<open>
  Claim C6.  Bytes 48..55 written by \<open>EncodeTwist\<close> hold the clock reading in
  milliseconds when the timestamp of the frame is zero, and the timestamp of the frame,
  bit for bit, when it is not; in the second case the clock is not used at all.
\<close>

theorem EncodeTwist_timestamp:
  "slice (EncodeTwist now t) 48 56 =
     PutUint64 (if Timestamp t = 0 then uint64_of_millis now else Timestamp t) \<and>
   (Timestamp t = 0 \<longrightarrow> Uint64 (slice (EncodeTwist now t) 48 56) = uint64_of_millis now) \<and>
   (Timestamp t \<noteq> 0 \<longrightarrow>
      Uint64 (slice (EncodeTwist now t) 48 56) = Timestamp t \<and>
      EncodeTwist now' t = EncodeTwist now t)"
  by (simp add: EncodeTwist_slices Uint64_PutUint64) (simp add: EncodeTwist_def)

theorem EncodeTwist_timestamp_witness:
  "Uint64 (slice (EncodeTwist 1700000000123 (nan_frame\<lparr>Timestamp := 0\<rparr>)) 48 56) = 1700000000123 \<and>
   Uint64 (slice (EncodeTwist 1700000000123 nan_frame) 48 56) = 1700000000000 \<and>
   EncodeTwist 0 nan_frame = EncodeTwist 1700000000123 nan_frame"
proof -
  have ts: "Timestamp nan_frame = 1700000000000"
    by (simp add: nan_frame_def)
  show ?thesis
    using EncodeTwist_timestamp [of 1700000000123 "nan_frame\<lparr>Timestamp := 0\<rparr>" 0, THEN conjunct2]
      EncodeTwist_timestamp [of 1700000000123 nan_frame 0, THEN conjunct2]
    by (simp add: ts uint64_of_millis_def)
qed


section \<open>Fan-out: proofs\<close>


subsection \<open>Datagram fan-out\<close>

lemma SendToPeer_rest: "snd (SendToPeer k d s) = s\<lparr>peers := peers (snd (SendToPeer k d s))\<rparr>"
  by (simp add: SendToPeer_def GetPeer_def split: option.splits)

lemma SendToPeer_map_of:
  "map_of (peers (snd (SendToPeer k d s))) k' =
     (if k' = k then map_option (accept_frame d) (map_of (peers s) k) else map_of (peers s) k')"
  by (auto simp add: SendToPeer_def GetPeer_def accept_frame_def accepts_def update_conv'
      split: option.splits)

lemma SendToPeer_ok:
  "fst (SendToPeer k d s) = None \<longleftrightarrow> (\<exists>p. map_of (peers s) k = Some p \<and> accepts p)"
  by (auto simp add: SendToPeer_def GetPeer_def accepts_def split: option.splits)

lemma Type_accept_frame [simp]: "Type (accept_frame d p) = Type p"
  by (simp add: accept_frame_def)

lemma ID_accept_frame [simp]: "ID (accept_frame d p) = ID p"
  by (simp add: accept_frame_def)

lemma SendToPeer_role: "peer_role (snd (SendToPeer k d s)) = peer_role s"
  by (rule ext) (simp add: peer_role_def SendToPeer_map_of option.map_comp comp_def)

lemma SendToPeer_sent:
  "k' \<noteq> k \<Longrightarrow> peer_sent (snd (SendToPeer k d s)) k' = peer_sent s k'"
  by (simp add: peer_sent_def SendToPeer_map_of)

text \<open>The loop touches nothing but the peers it is given, and counts at most one send
  for each.\<close>

lemma PM_broadcast_loop_rest:
  "snd (PM_broadcast_loop ps d n s) = s\<lparr>peers := peers (snd (PM_broadcast_loop ps d n s))\<rparr>"
proof (induction ps arbitrary: n s)
  case Nil
  show ?case by simp
next
  case (Cons p ps)
  obtain r s1 where st: "SendToPeer (ID p) d s = (r, s1)"
    by (cases "SendToPeer (ID p) d s")
  then have s1: "s1 = s\<lparr>peers := peers s1\<rparr>"
    using SendToPeer_rest [of "ID p" d s] by simp
  show ?case
  proof (cases r)
    case None
    with st Cons.IH [of "n + 1" s1] s1 show ?thesis
      by (metis (no_types, lifting) PM_broadcast_loop.simps(2) Relay.surjective Relay.update_convs(1) case_prod_conv option.simps(4))
  next
    case (Some e)
    with st Cons.IH [of n s1] s1 show ?thesis
      by (metis (no_types, lifting) PM_broadcast_loop.simps(2) Relay.surjective Relay.update_convs(1) case_prod_conv option.simps(5))
  qed
qed

lemma PM_broadcast_loop_role: "peer_role (snd (PM_broadcast_loop ps d n s)) = peer_role s"
proof (induction ps arbitrary: n s)
  case Nil
  show ?case by simp
next
  case (Cons p ps)
  obtain r s1 where st: "SendToPeer (ID p) d s = (r, s1)"
    by (cases "SendToPeer (ID p) d s")
  then have "peer_role s1 = peer_role s"
    using SendToPeer_role [of "ID p" d s] by simp
  with st Cons.IH [of _ s1] show ?case
    by (cases r) simp_all
qed

lemma PM_broadcast_loop_sent:
  "k \<notin> ID ` set ps \<Longrightarrow> peer_sent (snd (PM_broadcast_loop ps d n s)) k = peer_sent s k"
proof (induction ps arbitrary: n s)
  case Nil
  show ?case by simp
next
  case (Cons p ps)
  obtain r s1 where st: "SendToPeer (ID p) d s = (r, s1)"
    by (cases "SendToPeer (ID p) d s")
  from Cons.prems have "k \<noteq> ID p" and rest: "k \<notin> ID ` set ps"
    by auto
  then have "peer_sent s1 k = peer_sent s k"
    using SendToPeer_sent [of k "ID p" d s] st by simp
  with st Cons.IH [OF rest, of _ s1] show ?case
    by (cases r) simp_all
qed

lemma PM_broadcast_loop_count:
  "fst (PM_broadcast_loop ps d n s) \<le> n + length ps \<and> n \<le> fst (PM_broadcast_loop ps d n s)"
proof (induction ps arbitrary: n s)
  case Nil
  show ?case by simp
next
  case (Cons p ps)
  obtain r s1 where st: "SendToPeer (ID p) d s = (r, s1)"
    by (cases "SendToPeer (ID p) d s")
  show ?case
  proof (cases r)
    case None
    with st Cons.IH [of "n + 1" s1] show ?thesis by simp
  next
    case (Some e)
    with st Cons.IH [of n s1] show ?thesis by simp
  qed
qed

lemma registered_role:
  assumes "registry_ok s" and "p \<in> set (GetPeersByType s t)"
  shows "peer_role s (ID p) = Some t"
proof -
  from assms(2) obtain k where kp: "(k, p) \<in> set (peers s)" and t: "Type p = t"
    by (auto simp add: GetPeersByType_def)
  with assms(1) have "ID p = k"
    by (auto simp add: registry_ok_def list_all_iff)
  moreover from assms(1) kp have "map_of (peers s) k = Some p"
    by (simp add: registry_ok_def)
  ultimately show ?thesis
    using t by (simp add: peer_role_def)
qed

lemma PM_BroadcastToType_rest:
  "snd (PM_BroadcastToType t d s) = s\<lparr>peers := peers (snd (PM_BroadcastToType t d s))\<rparr>"
  unfolding PM_BroadcastToType_def by (rule PM_broadcast_loop_rest)

lemma PM_BroadcastToType_role: "peer_role (snd (PM_BroadcastToType t d s)) = peer_role s"
  unfolding PM_BroadcastToType_def by (rule PM_broadcast_loop_role)

lemma PM_BroadcastToType_sent:
  assumes "registry_ok s" and "peer_sent (snd (PM_BroadcastToType t d s)) k \<noteq> peer_sent s k"
  shows "peer_role s k = Some t"
proof -
  from assms(2) have "k \<in> ID ` set (GetPeersByType s t)"
    unfolding PM_BroadcastToType_def using PM_broadcast_loop_sent by blast
  with assms(1) show ?thesis
    by (auto simp add: registered_role)
qed

lemma PM_BroadcastToType_none:
  assumes "\<forall>k. peer_role s k \<noteq> Some t" and "registry_ok s"
  shows "PM_BroadcastToType t d s = (0, s)"
proof -
  have "GetPeersByType s t = []"
  proof (rule ccontr)
    assume "GetPeersByType s t \<noteq> []"
    then obtain p where "p \<in> set (GetPeersByType s t)"
      by (cases "GetPeersByType s t") auto
    with assms(2) have "peer_role s (ID p) = Some t"
      by (rule registered_role)
    with assms(1) show False by simp
  qed
  then show ?thesis
    by (simp add: PM_BroadcastToType_def)
qed

subsection \<open>Socket fan-out\<close>

lemma forwardData_loop_eq:
  "forwardData_loop sid t d cs =
     (map (\<lambda>(k, c). (k, enqueue_frame (WSClient_ID c \<noteq> sid \<and> PeerType c = t) d c)) cs,
      length (filter (\<lambda>(k, c). (WSClient_ID c \<noteq> sid \<and> PeerType c = t) \<and>
                                 length (Send c) < SendCap c) cs),
      map (\<lambda>(k, c). LogSendBufferFull (WSClient_ID c))
        (filter (\<lambda>(k, c). (WSClient_ID c \<noteq> sid \<and> PeerType c = t) \<and>
                            \<not> length (Send c) < SendCap c) cs))"
proof (induction cs)
  case Nil
  show ?case by simp
next
  case (Cons kc cs)
  obtain k c where kc: "kc = (k, c)"
    by (cases kc)
  show ?case
    unfolding kc using Cons.IH by (simp add: enqueue_frame_def try_send_def)
qed

lemma WS_broadcast_loop_eq:
  "WS_broadcast_loop t d cs =
     (map (\<lambda>(k, c). (k, enqueue_frame (PeerType c = t) d c)) cs,
      length (filter (\<lambda>(k, c). PeerType c = t \<and> length (Send c) < SendCap c) cs),
      map (\<lambda>(k, c). LogSendBufferFull (WSClient_ID c))
        (filter (\<lambda>(k, c). PeerType c = t \<and> \<not> length (Send c) < SendCap c) cs))"
proof (induction cs)
  case Nil
  show ?case by simp
next
  case (Cons kc cs)
  obtain k c where kc: "kc = (k, c)"
    by (cases kc)
  show ?case
    unfolding kc using Cons.IH by (simp add: enqueue_frame_def try_send_def)
qed

lemma map_of_map_values:
  "map_of (map (\<lambda>(k, c). (k, f c)) cs) k = map_option f (map_of cs k)"
  by (induction cs) auto

lemma PeerType_enqueue_frame [simp]: "PeerType (enqueue_frame b d c) = PeerType c"
  by (simp add: enqueue_frame_def)

lemma WSClient_ID_enqueue_frame [simp]: "WSClient_ID (enqueue_frame b d c) = WSClient_ID c"
  by (simp add: enqueue_frame_def)

lemma SendCap_enqueue_frame [simp]: "SendCap (enqueue_frame b d c) = SendCap c"
  by (simp add: enqueue_frame_def)

lemma fwd_target_neq: "fwd_target t \<noteq> t"
  by (simp add: fwd_target_def)

lemma forwardData_clients:
  "dataClients (forwardData sid st d s) =
     map (\<lambda>(k, c). (k, enqueue_frame (WSClient_ID c \<noteq> sid \<and> PeerType c = fwd_target st) d c))
       (dataClients s)"
  by (simp add: forwardData_def forwardData_loop_eq add_forwarded_def Let_def fwd_target_def)

lemma forwardData_peers: "peers (forwardData sid st d s) = peers s"
  by (simp add: forwardData_def forwardData_loop_eq add_forwarded_def Let_def)

lemma forwardData_flags:
  "router_set (forwardData sid st d s) = router_set s"
  "peerManager_set (forwardData sid st d s) = peerManager_set s"
  "wsManager_set (forwardData sid st d s) = wsManager_set s"
  by (simp_all add: forwardData_def forwardData_loop_eq add_forwarded_def Let_def)

lemma forwardData_stats:
  "stats (forwardData sid st d s) =
     (stats s)\<lparr>MessagesForwarded :=
        (if router_set s then
           MessagesForwarded (stats s) +
           of_nat (length (filter (\<lambda>(k, c). (WSClient_ID c \<noteq> sid \<and> PeerType c = fwd_target st) \<and>
                                 length (Send c) < SendCap c) (dataClients s)))
         else MessagesForwarded (stats s))\<rparr>"
  by (simp add: forwardData_def forwardData_loop_eq add_forwarded_def Let_def fwd_target_def)

lemma forwardData_logged:
  "logged (forwardData sid st d s) =
     logged s @ map (\<lambda>(k, c). LogSendBufferFull (WSClient_ID c))
        (filter (\<lambda>(k, c). (WSClient_ID c \<noteq> sid \<and> PeerType c = fwd_target st) \<and>
                            \<not> length (Send c) < SendCap c) (dataClients s))"
  by (simp add: forwardData_def forwardData_loop_eq add_forwarded_def Let_def fwd_target_def)

lemma WS_BroadcastToType_clients:
  "dataClients (snd (WS_BroadcastToType t d s)) =
     map (\<lambda>(k, c). (k, enqueue_frame (PeerType c = t) d c)) (dataClients s)"
  by (simp add: WS_BroadcastToType_def WS_broadcast_loop_eq)

lemma WS_BroadcastToType_count:
  "fst (WS_BroadcastToType t d s) =
     length (filter (\<lambda>(k, c). PeerType c = t \<and> length (Send c) < SendCap c) (dataClients s))"
  by (simp add: WS_BroadcastToType_def WS_broadcast_loop_eq)

lemma WS_BroadcastToType_rest:
  "peers (snd (WS_BroadcastToType t d s)) = peers s"
  "stats (snd (WS_BroadcastToType t d s)) = stats s"
  "router_set (snd (WS_BroadcastToType t d s)) = router_set s"
  "peerManager_set (snd (WS_BroadcastToType t d s)) = peerManager_set s"
  "wsManager_set (snd (WS_BroadcastToType t d s)) = wsManager_set s"
  by (simp_all add: WS_BroadcastToType_def WS_broadcast_loop_eq)

lemma WS_BroadcastToType_logged:
  "logged (snd (WS_BroadcastToType t d s)) =
     logged s @ map (\<lambda>(k, c). LogSendBufferFull (WSClient_ID c))
        (filter (\<lambda>(k, c). PeerType c = t \<and> \<not> length (Send c) < SendCap c) (dataClients s))"
  by (simp add: WS_BroadcastToType_def WS_broadcast_loop_eq)

subsection \<open>The router\<close>

lemma PM_BroadcastToType_fields:
  "dataClients (snd (PM_BroadcastToType t d s)) = dataClients s"
  "stats (snd (PM_BroadcastToType t d s)) = stats s"
  "logged (snd (PM_BroadcastToType t d s)) = logged s"
  "wsManager_set (snd (PM_BroadcastToType t d s)) = wsManager_set s"
  "router_set (snd (PM_BroadcastToType t d s)) = router_set s"
  "peerManager_set (snd (PM_BroadcastToType t d s)) = peerManager_set s"
  using PM_BroadcastToType_rest [of t d s, THEN arg_cong, of dataClients]
    PM_BroadcastToType_rest [of t d s, THEN arg_cong, of stats]
    PM_BroadcastToType_rest [of t d s, THEN arg_cong, of logged]
    PM_BroadcastToType_rest [of t d s, THEN arg_cong, of wsManager_set]
    PM_BroadcastToType_rest [of t d s, THEN arg_cong, of router_set]
    PM_BroadcastToType_rest [of t d s, THEN arg_cong, of peerManager_set]
  by simp_all

lemma route_to_peers:
  "peers (route_to pt wt sm d s) = peers (snd (PM_BroadcastToType pt d s))"
  by (simp add: route_to_def split_beta Let_def add_forwarded_def log_Printf_def
      WS_BroadcastToType_rest)

lemma route_to_clients:
  "dataClients (route_to pt wt sm d s) =
     (if wsManager_set s
      then map (\<lambda>(k, c). (k, enqueue_frame (PeerType c = wt) d c)) (dataClients s)
      else dataClients s)"
  by (simp add: route_to_def split_beta Let_def add_forwarded_def log_Printf_def
      WS_BroadcastToType_clients PM_BroadcastToType_fields)

lemma route_to_forwarded:
  "MessagesForwarded (stats (route_to pt wt sm d s)) =
     MessagesForwarded (stats s) + of_nat (fst (PM_BroadcastToType pt d s)) +
     (if wsManager_set s
      then of_nat (length (filter (\<lambda>(k, c). PeerType c = wt \<and> length (Send c) < SendCap c)
                     (dataClients s)))
      else 0)"
  by (simp add: route_to_def split_beta Let_def add_forwarded_def log_Printf_def
      WS_BroadcastToType_count WS_BroadcastToType_rest PM_BroadcastToType_fields)

lemma route_to_counters:
  "MessagesReceived (stats (route_to pt wt sm d s)) = MessagesReceived (stats s)"
  "ParseErrors (stats (route_to pt wt sm d s)) = ParseErrors (stats s)"
  by (simp_all add: route_to_def split_beta Let_def add_forwarded_def log_Printf_def
      WS_BroadcastToType_rest PM_BroadcastToType_fields)

lemma obs_peers_cong:
  "peers s' = peers s \<Longrightarrow> peer_sent s' = peer_sent s \<and> peer_role s' = peer_role s"
  by (auto simp add: peer_sent_def peer_role_def fun_eq_iff)

lemma obs_clients_cong:
  "dataClients s' = dataClients s \<Longrightarrow>
     client_queue s' = client_queue s \<and> client_role s' = client_role s"
  by (auto simp add: client_queue_def client_role_def fun_eq_iff)

lemma registry_ok_cong:
  "peers s' = peers s \<Longrightarrow> dataClients s' = dataClients s \<Longrightarrow> registry_ok s' = registry_ok s"
  by (simp add: registry_ok_def)

lemma client_queue_enqueue:
  assumes "dataClients s' = map (\<lambda>(k, c). (k, enqueue_frame (E c) d c)) (dataClients s)"
  shows "client_queue s' k =
           (case map_of (dataClients s) k of
              None \<Rightarrow> []
            | Some c \<Rightarrow> if E c \<and> length (Send c) < SendCap c then Send c @ [Frame d] else Send c)"
  by (simp add: client_queue_def assms map_of_map_values enqueue_frame_def split: option.splits)

lemma client_queue_changed:
  assumes "dataClients s' = map (\<lambda>(k, c). (k, enqueue_frame (E c) d c)) (dataClients s)"
    and "client_queue s' k \<noteq> client_queue s k"
  shows "\<exists>c. map_of (dataClients s) k = Some c \<and> E c \<and> length (Send c) < SendCap c"
  using assms(2) unfolding client_queue_enqueue [OF assms(1)]
  by (auto simp add: client_queue_def split: option.splits if_splits)

lemma client_role_enqueue:
  assumes "dataClients s' = map (\<lambda>(k, c). (k, enqueue_frame (E c) d c)) (dataClients s)"
  shows "client_role s' = client_role s"
  by (rule ext) (simp add: client_role_def assms map_of_map_values option.map_comp comp_def)

lemma registry_ok_enqueue:
  assumes "dataClients s' = map (\<lambda>(k, c). (k, enqueue_frame (E c) d c)) (dataClients s)"
    and "peers s' = peers s"
  shows "registry_ok s' = registry_ok s"
proof -
  have "map fst (dataClients s') = map fst (dataClients s)"
    by (simp add: assms(1) comp_def split_beta)
  moreover have "list_all (\<lambda>(k, c). WSClient_ID c = k) (dataClients s') =
      list_all (\<lambda>(k, c). WSClient_ID c = k) (dataClients s)"
    by (simp add: assms(1) list_all_iff split_beta)
  ultimately show ?thesis
    by (simp add: registry_ok_def assms(2))
qed

lemma inc_received_fields [simp]:
  "peers (inc_received s) = peers s"
  "dataClients (inc_received s) = dataClients s"
  "logged (inc_received s) = logged s"
  "wsManager_set (inc_received s) = wsManager_set s"
  "router_set (inc_received s) = router_set s"
  "peerManager_set (inc_received s) = peerManager_set s"
  "MessagesForwarded (stats (inc_received s)) = MessagesForwarded (stats s)"
  "ParseErrors (stats (inc_received s)) = ParseErrors (stats s)"
  "MessagesReceived (stats (inc_received s)) = MessagesReceived (stats s) + 1"
  by (simp_all add: inc_received_def)

lemma inc_parse_errors_fields [simp]:
  "peers (inc_parse_errors s) = peers s"
  "dataClients (inc_parse_errors s) = dataClients s"
  "logged (inc_parse_errors s) = logged s"
  "MessagesForwarded (stats (inc_parse_errors s)) = MessagesForwarded (stats s)"
  "ParseErrors (stats (inc_parse_errors s)) = ParseErrors (stats s) + 1"
  "MessagesReceived (stats (inc_parse_errors s)) = MessagesReceived (stats s)"
  by (simp_all add: inc_parse_errors_def)

lemma log_Printf_fields [simp]:
  "peers (log_Printf e s) = peers s"
  "dataClients (log_Printf e s) = dataClients s"
  "stats (log_Printf e s) = stats s"
  "logged (log_Printf e s) = logged s @ [e]"
  "wsManager_set (log_Printf e s) = wsManager_set s"
  "router_set (log_Printf e s) = router_set s"
  "peerManager_set (log_Printf e s) = peerManager_set s"
  by (simp_all add: log_Printf_def)

lemma add_forwarded_fields [simp]:
  "peers (add_forwarded n s) = peers s"
  "dataClients (add_forwarded n s) = dataClients s"
  "logged (add_forwarded n s) = logged s"
  "wsManager_set (add_forwarded n s) = wsManager_set s"
  "router_set (add_forwarded n s) = router_set s"
  "peerManager_set (add_forwarded n s) = peerManager_set s"
  "MessagesForwarded (stats (add_forwarded n s)) = MessagesForwarded (stats s) + of_nat n"
  "ParseErrors (stats (add_forwarded n s)) = ParseErrors (stats s)"
  "MessagesReceived (stats (add_forwarded n s)) = MessagesReceived (stats s)"
  by (simp_all add: add_forwarded_def)

text \<open>The four ways through \<open>HandleMessage\<close>.\<close>

lemma HandleMessage_cases:
  obtains
    (reject) err where "DecodeTwist d = Inl err"
      and "HandleMessage origin d s =
             inc_parse_errors (log_Printf (LogNonTwist (ID origin) (length d)) (inc_received s))"
  | (web) s0 twist where "DecodeTwist d = Inr twist" and "Type origin = PeerTypeWeb"
      and "peers s0 = peers s" and "dataClients s0 = dataClients s"
      and "stats s0 = stats (inc_received s)" and "wsManager_set s0 = wsManager_set s"
      and "HandleMessage origin d s =
             route_to PeerTypePython ''python'' LogForwardedPython d s0"
  | (python) s0 twist where "DecodeTwist d = Inr twist" and "Type origin = PeerTypePython"
      and "peers s0 = peers s" and "dataClients s0 = dataClients s"
      and "stats s0 = stats (inc_received s)" and "wsManager_set s0 = wsManager_set s"
      and "HandleMessage origin d s = route_to PeerTypeWeb ''web'' LogForwardedWeb d s0"
  | (other) twist where "DecodeTwist d = Inr twist"
      and "Type origin \<noteq> PeerTypeWeb" and "Type origin \<noteq> PeerTypePython"
      and "peers (HandleMessage origin d s) = peers s"
      and "dataClients (HandleMessage origin d s) = dataClients s"
      and "stats (HandleMessage origin d s) = stats (inc_received s)"
proof (cases "DecodeTwist d")
  case (Inl err)
  then show ?thesis
    by (intro reject [of err]) (simp_all add: HandleMessage_def Let_def)
next
  case (Inr twist)
  define s0 where "s0 = (if \<not> IsZero twist
      then log_Printf (LogRouterTwist (ID origin) twist) (inc_received s) else inc_received s)"
  have s0: "peers s0 = peers s" "dataClients s0 = dataClients s"
    "stats s0 = stats (inc_received s)" "wsManager_set s0 = wsManager_set s"
    by (simp_all add: s0_def)
  consider "Type origin = PeerTypeWeb"
    | "Type origin \<noteq> PeerTypeWeb" "Type origin = PeerTypePython"
    | "Type origin \<noteq> PeerTypeWeb" "Type origin \<noteq> PeerTypePython"
    by blast
  then show ?thesis
  proof cases
    case 1
    with Inr s0 show ?thesis
      by (intro web [of twist s0]) (simp_all add: HandleMessage_def Let_def s0_def)
  next
    case 2
    with Inr s0 show ?thesis
      by (intro python [of twist s0]) (simp_all add: HandleMessage_def Let_def s0_def)
  next
    case 3
    with Inr s0 show ?thesis
      by (intro other [of twist]) (simp_all add: HandleMessage_def Let_def s0_def)
  qed
qed

lemma bridge_target_neq: "bridge_target t \<noteq> t"
  by (simp add: bridge_target_def PeerTypePython_def PeerTypeWeb_def)

text \<open>The two ways through \<open>handleBinaryData\<close>.\<close>

lemma handleBinaryData_cases:
  obtains
    (reject) err where "DecodeTwist d = Inl err"
      and "handleBinaryData ms c d s =
             log_Printf (LogInvalidTwist (WSClient_ID c) err)
               (if router_set s then inc_received s else s)"
  | (ok) s0 s1 twist where "DecodeTwist d = Inr twist"
      and "peers s0 = peers s" and "dataClients s0 = dataClients s"
      and "MessagesForwarded (stats s0) = MessagesForwarded (stats s)"
      and "router_set s0 = router_set s"
      and "s1 = forwardData (WSClient_ID c) (PeerType c) d s0"
      and "dataClients (handleBinaryData ms c d s) = dataClients s1"
      and "peers (handleBinaryData ms c d s) =
             (if peerManager_set s
              then peers (snd (PM_BroadcastToType (bridge_target (PeerType c)) d s1))
              else peers s)"
      and "MessagesForwarded (stats (handleBinaryData ms c d s)) =
             MessagesForwarded (stats s1) +
             (if peerManager_set s \<and> router_set s
              then of_nat (fst (PM_BroadcastToType (bridge_target (PeerType c)) d s1)) else 0)"
proof (cases "DecodeTwist d")
  case (Inl err)
  then show ?thesis
    by (intro reject [of err]) (simp_all add: handleBinaryData_def Let_def)
next
  case (Inr twist)
  define r where "r = (if router_set s then inc_received s else s)"
  define s0 where "s0 = (if \<not> IsZero twist
      then log_Printf (LogWSTwist (WSClient_ID c) (PeerType c) twist (GetLatencyMs ms twist)) r
      else r)"
  define s1 where "s1 = forwardData (WSClient_ID c) (PeerType c) d s0"
  have s0: "peers s0 = peers s" "dataClients s0 = dataClients s"
    "MessagesForwarded (stats s0) = MessagesForwarded (stats s)" "router_set s0 = router_set s"
    "peerManager_set s0 = peerManager_set s"
    by (simp_all add: s0_def r_def)
  have s1: "peers s1 = peers s" "peerManager_set s1 = peerManager_set s"
    "router_set s1 = router_set s"
    by (simp_all add: s1_def forwardData_peers forwardData_flags s0)
  have res: "handleBinaryData ms c d s =
      (if peerManager_set s1
       then let (sent, s2) = PM_BroadcastToType (bridge_target (PeerType c)) d s1
            in if sent > 0
               then let s3 = log_Printf (LogBridged sent (bridge_target (PeerType c))) s2
                    in if router_set s3 then add_forwarded sent s3 else s3
               else s2
       else s1)"
    by (simp only: handleBinaryData_def Let_def s1_def s0_def r_def bridge_target_def Inr sum.case)
  show ?thesis
  proof (rule ok [of twist s0 s1])
    show "dataClients (handleBinaryData ms c d s) = dataClients s1"
      by (simp add: res split_beta Let_def PM_BroadcastToType_fields)
    show "peers (handleBinaryData ms c d s) =
             (if peerManager_set s
              then peers (snd (PM_BroadcastToType (bridge_target (PeerType c)) d s1))
              else peers s)"
      by (simp add: res split_beta Let_def s1)
    show "MessagesForwarded (stats (handleBinaryData ms c d s)) =
             MessagesForwarded (stats s1) +
             (if peerManager_set s \<and> router_set s
              then of_nat (fst (PM_BroadcastToType (bridge_target (PeerType c)) d s1)) else 0)"
      by (simp add: res split_beta Let_def s1 PM_BroadcastToType_fields)
  qed (simp_all add: Inr s0 s1_def)
qed



subsection \<open>Who receives a routed frame\<close>

lemma route_to_peer_delivery:
  assumes "registry_ok s" and "peer_sent (route_to pt wt sm d s) k \<noteq> peer_sent s k"
  shows "peer_role s k = Some pt"
proof -
  have "peer_sent (route_to pt wt sm d s) = peer_sent (snd (PM_BroadcastToType pt d s))"
    using obs_peers_cong [OF route_to_peers] by blast
  with assms show ?thesis
    by (simp add: PM_BroadcastToType_sent)
qed

lemma route_to_client_delivery:
  assumes "client_queue (route_to pt wt sm d s) k \<noteq> client_queue s k"
  shows "client_role s k = Some wt"
proof (cases "wsManager_set s")
  case True
  then have "dataClients (route_to pt wt sm d s) =
      map (\<lambda>(k, c). (k, enqueue_frame (PeerType c = wt) d c)) (dataClients s)"
    by (simp add: route_to_clients)
  from client_queue_changed [OF this assms] show ?thesis
    by (auto simp add: client_role_def)
next
  case False
  then have "dataClients (route_to pt wt sm d s) = dataClients s"
    by (simp add: route_to_clients)
  with assms show ?thesis
    using obs_clients_cong by metis
qed

lemma HandleMessage_peer_delivery:
  assumes "registry_ok s" and "peer_sent (HandleMessage origin d s) k \<noteq> peer_sent s k"
  shows "Type origin = PeerTypeWeb \<and> peer_role s k = Some PeerTypePython \<or>
         Type origin = PeerTypePython \<and> peer_role s k = Some PeerTypeWeb"
proof (cases rule: HandleMessage_cases [of d origin s])
  case (reject err)
  with assms(2) show ?thesis
    using obs_peers_cong [of "HandleMessage origin d s" s] by simp
next
  case (web s0 twist)
  have ok: "registry_ok s0"
    using registry_ok_cong [of s0 s] web(3,4) assms(1) by simp
  from obs_peers_cong [OF web(3)] have eq: "peer_sent s0 = peer_sent s" "peer_role s0 = peer_role s"
    by simp_all
  from assms(2) have "peer_sent (route_to PeerTypePython ''python'' LogForwardedPython d s0) k
      \<noteq> peer_sent s0 k"
    by (simp add: web(7) eq)
  from route_to_peer_delivery [OF ok this] web(2) eq show ?thesis
    by simp
next
  case (python s0 twist)
  have ok: "registry_ok s0"
    using registry_ok_cong [of s0 s] python(3,4) assms(1) by simp
  from obs_peers_cong [OF python(3)] have eq: "peer_sent s0 = peer_sent s" "peer_role s0 = peer_role s"
    by simp_all
  from assms(2) have "peer_sent (route_to PeerTypeWeb ''web'' LogForwardedWeb d s0) k
      \<noteq> peer_sent s0 k"
    by (simp add: python(7) eq)
  from route_to_peer_delivery [OF ok this] python(2) eq show ?thesis
    by simp
next
  case (other twist)
  with assms(2) show ?thesis
    using obs_peers_cong [of "HandleMessage origin d s" s] by simp
qed

lemma HandleMessage_client_delivery:
  assumes "client_queue (HandleMessage origin d s) k \<noteq> client_queue s k"
  shows "Type origin = PeerTypeWeb \<and> client_role s k = Some ''python'' \<or>
         Type origin = PeerTypePython \<and> client_role s k = Some ''web''"
proof (cases rule: HandleMessage_cases [of d origin s])
  case (reject err)
  with assms show ?thesis
    using obs_clients_cong [of "HandleMessage origin d s" s] by simp
next
  case (web s0 twist)
  from obs_clients_cong [OF web(4)]
  have eq: "client_queue s0 = client_queue s" "client_role s0 = client_role s"
    by simp_all
  from assms have "client_queue (route_to PeerTypePython ''python'' LogForwardedPython d s0) k
      \<noteq> client_queue s0 k"
    by (simp add: web(7) eq)
  from route_to_client_delivery [OF this] web(2) eq show ?thesis
    by simp
next
  case (python s0 twist)
  from obs_clients_cong [OF python(4)]
  have eq: "client_queue s0 = client_queue s" "client_role s0 = client_role s"
    by simp_all
  from assms have "client_queue (route_to PeerTypeWeb ''web'' LogForwardedWeb d s0) k
      \<noteq> client_queue s0 k"
    by (simp add: python(7) eq)
  from route_to_client_delivery [OF this] python(2) eq show ?thesis
    by simp
next
  case (other twist)
  with assms show ?thesis
    using obs_clients_cong [of "HandleMessage origin d s" s] by simp
qed

lemma forwardData_client_delivery:
  assumes "client_queue (forwardData sid st d s) k \<noteq> client_queue s k"
  shows "\<exists>c. map_of (dataClients s) k = Some c \<and> WSClient_ID c \<noteq> sid \<and>
              PeerType c = fwd_target st \<and> length (Send c) < SendCap c"
  using client_queue_changed [OF forwardData_clients assms] by blast

lemma handleBinaryData_client_delivery:
  assumes "client_queue (handleBinaryData ms c d s) k \<noteq> client_queue s k"
  shows "\<exists>c'. map_of (dataClients s) k = Some c' \<and> WSClient_ID c' \<noteq> WSClient_ID c \<and>
               PeerType c' = fwd_target (PeerType c) \<and> length (Send c') < SendCap c'"
proof (cases rule: handleBinaryData_cases [of d ms c s])
  case (reject err)
  with assms show ?thesis
    using obs_clients_cong [of "handleBinaryData ms c d s" s] by simp
next
  case (ok s0 s1 twist)
  from obs_clients_cong [OF ok(3)] have eq: "client_queue s0 = client_queue s"
    by simp
  from obs_clients_cong [OF ok(7)] assms have "client_queue s1 k \<noteq> client_queue s0 k"
    by (simp add: eq)
  from forwardData_client_delivery [OF this [unfolded ok(6)]] ok(3) show ?thesis
    by simp
qed

lemma handleBinaryData_peer_delivery:
  assumes "registry_ok s" and "peer_sent (handleBinaryData ms c d s) k \<noteq> peer_sent s k"
  shows "peer_role s k = Some (bridge_target (PeerType c))"
proof (cases rule: handleBinaryData_cases [of d ms c s])
  case (reject err)
  with assms(2) show ?thesis
    using obs_peers_cong [of "handleBinaryData ms c d s" s] by simp
next
  case (ok s0 s1 twist)
  have p1: "peers s1 = peers s"
    by (simp add: ok(6) forwardData_peers ok(2))
  have "registry_ok s0"
    using registry_ok_cong [of s0 s] assms(1) ok(2,3) by simp
  then have ok1: "registry_ok s1"
    using registry_ok_enqueue [OF forwardData_clients forwardData_peers, of "WSClient_ID c" "PeerType c" d s0]
      ok(6) by simp
  from obs_peers_cong [OF p1] have eq: "peer_sent s1 = peer_sent s" "peer_role s1 = peer_role s"
    by simp_all
  show ?thesis
  proof (cases "peerManager_set s")
    case True
    with ok(8) have "peers (handleBinaryData ms c d s) =
        peers (snd (PM_BroadcastToType (bridge_target (PeerType c)) d s1))"
      by simp
    from obs_peers_cong [OF this] assms(2)
    have "peer_sent (snd (PM_BroadcastToType (bridge_target (PeerType c)) d s1)) k \<noteq> peer_sent s1 k"
      by (simp add: eq)
    from PM_BroadcastToType_sent [OF ok1 this] eq show ?thesis
      by simp
  next
    case False
    with ok(8) have "peers (handleBinaryData ms c d s) = peers s"
      by simp
    from obs_peers_cong [OF this] assms(2) show ?thesis
      by simp
  qed
qed


subsection \<open>No target, no delivery\<close>

lemma registered_client_role:
  assumes "registry_ok s" and "(k, c) \<in> set (dataClients s)"
  shows "client_role s k = Some (PeerType c)"
proof -
  from assms have "map_of (dataClients s) k = Some c"
    by (simp add: registry_ok_def)
  then show ?thesis
    by (simp add: client_role_def)
qed

lemma enqueue_none:
  assumes "\<forall>(k, c) \<in> set cs. \<not> E c"
  shows "map (\<lambda>(k, c). (k, enqueue_frame (E c) d c)) cs = cs"
    and "filter (\<lambda>(k, c). E c \<and> length (Send c) < SendCap c) cs = []"
  using assms by (induction cs) (auto simp add: enqueue_frame_def)

lemma no_client_of_role:
  assumes "registry_ok s" and "\<forall>k. client_role s k \<noteq> Some wt"
  shows "\<forall>(k, c) \<in> set (dataClients s). \<not> (P c \<and> PeerType c = wt)"
  using assms registered_client_role by fastforce

lemma route_to_no_target:
  assumes "registry_ok s" and "\<forall>k. peer_role s k \<noteq> Some pt"
    and "\<forall>k. client_role s k \<noteq> Some wt"
  shows "peers (route_to pt wt sm d s) = peers s \<and>
         dataClients (route_to pt wt sm d s) = dataClients s \<and>
         MessagesForwarded (stats (route_to pt wt sm d s)) = MessagesForwarded (stats s)"
proof -
  have pm: "PM_BroadcastToType pt d s = (0, s)"
    using assms(2,1) by (rule PM_BroadcastToType_none)
  have none: "\<forall>(k, c) \<in> set (dataClients s). \<not> (PeerType c = wt)"
    using no_client_of_role [where P = "\<lambda>c. True", OF assms(1,3)] by simp
  show ?thesis
    using pm enqueue_none(1) [where d = d, OF none] enqueue_none(2) [OF none]
    by (simp add: route_to_peers route_to_clients route_to_forwarded)
qed

lemma HandleMessage_no_target:
  assumes "registry_ok s"
    and "\<forall>k r. peer_role s k = Some r \<longrightarrow> r = Type origin"
    and "\<forall>k r. client_role s k = Some r \<longrightarrow> r = Type origin"
  shows "peers (HandleMessage origin d s) = peers s \<and>
         dataClients (HandleMessage origin d s) = dataClients s \<and>
         MessagesForwarded (stats (HandleMessage origin d s)) = MessagesForwarded (stats s)"
proof (cases rule: HandleMessage_cases [of d origin s])
  case (reject err)
  then show ?thesis by simp
next
  case (web s0 twist)
  have ok: "registry_ok s0"
    using registry_ok_cong [of s0 s] web(3,4) assms(1) by simp
  from obs_peers_cong [OF web(3)] obs_clients_cong [OF web(4)]
  have eq: "peer_role s0 = peer_role s" "client_role s0 = client_role s"
    by simp_all
  have "\<forall>k. peer_role s0 k \<noteq> Some PeerTypePython" "\<forall>k. client_role s0 k \<noteq> Some ''python''"
    using assms(2,3) web(2) by (auto simp add: eq PeerTypeWeb_def PeerTypePython_def)
  from route_to_no_target [OF ok this] show ?thesis
    by (simp add: web)
next
  case (python s0 twist)
  have ok: "registry_ok s0"
    using registry_ok_cong [of s0 s] python(3,4) assms(1) by simp
  from obs_peers_cong [OF python(3)] obs_clients_cong [OF python(4)]
  have eq: "peer_role s0 = peer_role s" "client_role s0 = client_role s"
    by simp_all
  have "\<forall>k. peer_role s0 k \<noteq> Some PeerTypeWeb" "\<forall>k. client_role s0 k \<noteq> Some ''web''"
    using assms(2,3) python(2) by (auto simp add: eq PeerTypeWeb_def PeerTypePython_def)
  from route_to_no_target [OF ok this] show ?thesis
    by (simp add: python)
next
  case (other twist)
  then show ?thesis by simp
qed

lemma forwardData_no_target:
  assumes "registry_ok s" and "\<forall>k. client_role s k \<noteq> Some (fwd_target st)"
  shows "dataClients (forwardData sid st d s) = dataClients s \<and>
         stats (forwardData sid st d s) = stats s"
proof -
  have "\<forall>(k, c) \<in> set (dataClients s). \<not> (WSClient_ID c \<noteq> sid \<and> PeerType c = fwd_target st)"
    using assms by (rule no_client_of_role)
  from enqueue_none(1) [where d = d, OF this] enqueue_none(2) [OF this] show ?thesis
    by (simp add: forwardData_clients forwardData_stats)
qed

lemma handleBinaryData_no_target:
  assumes "registry_ok s"
    and "\<forall>k r. peer_role s k = Some r \<longrightarrow> r = PeerType c"
    and "\<forall>k r. client_role s k = Some r \<longrightarrow> r = PeerType c"
  shows "peers (handleBinaryData ms c d s) = peers s \<and>
         dataClients (handleBinaryData ms c d s) = dataClients s \<and>
         MessagesForwarded (stats (handleBinaryData ms c d s)) = MessagesForwarded (stats s)"
proof (cases rule: handleBinaryData_cases [of d ms c s])
  case (reject err)
  then show ?thesis by simp
next
  case (ok s0 s1 twist)
  have ok0: "registry_ok s0"
    using registry_ok_cong [of s0 s] assms(1) ok(2,3) by simp
  from obs_peers_cong [OF ok(2)] obs_clients_cong [OF ok(3)]
  have eq: "peer_role s0 = peer_role s" "client_role s0 = client_role s"
    by simp_all
  have "\<forall>k. client_role s0 k \<noteq> Some (fwd_target (PeerType c))"
    using assms(3) fwd_target_neq [of "PeerType c"] by (auto simp add: eq)
  from forwardData_no_target [where sid = "WSClient_ID c" and d = d, OF ok0 this]
  have s1: "dataClients s1 = dataClients s" "stats s1 = stats s0"
    by (simp_all add: ok(6) ok(3))
  have p1: "peers s1 = peers s"
    by (simp add: ok(6) forwardData_peers ok(2))
  have ok1: "registry_ok s1"
    using registry_ok_cong [of s1 s] assms(1) s1(1) p1 by simp
  have "\<forall>k. peer_role s1 k \<noteq> Some (bridge_target (PeerType c))"
    using assms(2) bridge_target_neq [of "PeerType c"] obs_peers_cong [OF p1] by auto
  then have "PM_BroadcastToType (bridge_target (PeerType c)) d s1 = (0, s1)"
    using ok1 by (rule PM_BroadcastToType_none)
  then show ?thesis
    by (simp add: ok(7,8,9) s1 p1 ok(4))
qed

subsection \<open>The origin is not a target\<close>

lemma forwardData_self:
  assumes "registry_ok s"
  shows "client_queue (forwardData sid st d s) sid = client_queue s sid"
proof (rule ccontr)
  assume "client_queue (forwardData sid st d s) sid \<noteq> client_queue s sid"
  from forwardData_client_delivery [OF this]
  obtain c where c: "map_of (dataClients s) sid = Some c" "WSClient_ID c \<noteq> sid"
    by blast
  from c(1) have "(sid, c) \<in> set (dataClients s)"
    by (rule map_of_SomeD)
  with assms have "WSClient_ID c = sid"
    by (auto simp add: registry_ok_def list_all_iff)
  with c(2) show False by simp
qed

lemma handleBinaryData_self:
  assumes "registry_ok s"
  shows "client_queue (handleBinaryData ms c d s) (WSClient_ID c) = client_queue s (WSClient_ID c)"
proof (rule ccontr)
  assume "client_queue (handleBinaryData ms c d s) (WSClient_ID c) \<noteq> client_queue s (WSClient_ID c)"
  from handleBinaryData_client_delivery [OF this]
  obtain c' where c: "map_of (dataClients s) (WSClient_ID c) = Some c'"
      "WSClient_ID c' \<noteq> WSClient_ID c"
    by blast
  from c(1) have "(WSClient_ID c, c') \<in> set (dataClients s)"
    by (rule map_of_SomeD)
  with assms have "WSClient_ID c' = WSClient_ID c"
    by (auto simp add: registry_ok_def list_all_iff)
  with c(2) show False by simp
qed

lemma HandleMessage_self:
  assumes "registry_ok s" and "GetPeer s (ID origin) = Some origin"
  shows "peer_sent (HandleMessage origin d s) (ID origin) = peer_sent s (ID origin)"
proof (rule ccontr)
  assume "peer_sent (HandleMessage origin d s) (ID origin) \<noteq> peer_sent s (ID origin)"
  from HandleMessage_peer_delivery [OF assms(1) this] assms(2) show False
    by (auto simp add: peer_role_def GetPeer_def PeerTypeWeb_def PeerTypePython_def)
qed


section \<open>Routing claims\<close>

lemma opposite_fwd_target:
  "client_role s k = Some (fwd_target t) \<Longrightarrow> opposite_role t (client_role s k)"
  by (simp add: opposite_role_def fwd_target_def)

lemma opposite_bridge_target:
  "peer_role s k = Some (bridge_target t) \<Longrightarrow> opposite_role t (peer_role s k)"
  by (simp add: opposite_role_def bridge_target_def PeerTypeWeb_def PeerTypePython_def)

lemma forwardData_opposite:
  assumes "client_queue (forwardData sid st d s) k \<noteq> client_queue s k"
  shows "opposite_role st (client_role s k)"
proof -
  from forwardData_client_delivery [OF assms]
  have "client_role s k = Some (fwd_target st)"
    by (auto simp add: client_role_def)
  then show ?thesis
    by (rule opposite_fwd_target)
qed

text \<open>
  Claim C1, as the code has it.  When a byte slice fails frame decoding,
  \<open>HandleMessage\<close> counts it as received and as a decode error, logs it and forwards
  it to nobody; the socket binary path counts it as received (when the router is
  attached), logs it, leaves the decode-error counter alone and forwards it to nobody.
\<close>

theorem decode_failure_drops:
  assumes "DecodeTwist d = Inl err"
  shows "peers (HandleMessage origin d s) = peers s \<and>
         dataClients (HandleMessage origin d s) = dataClients s \<and>
         MessagesReceived (stats (HandleMessage origin d s)) = MessagesReceived (stats s) + 1 \<and>
         ParseErrors (stats (HandleMessage origin d s)) = ParseErrors (stats s) + 1 \<and>
         MessagesForwarded (stats (HandleMessage origin d s)) = MessagesForwarded (stats s) \<and>
         logged (HandleMessage origin d s) = logged s @ [LogNonTwist (ID origin) (length d)] \<and>
         peers (handleBinaryData ms c d s) = peers s \<and>
         dataClients (handleBinaryData ms c d s) = dataClients s \<and>
         MessagesReceived (stats (handleBinaryData ms c d s)) =
           MessagesReceived (stats s) + (if router_set s then 1 else 0) \<and>
         ParseErrors (stats (handleBinaryData ms c d s)) = ParseErrors (stats s) \<and>
         MessagesForwarded (stats (handleBinaryData ms c d s)) = MessagesForwarded (stats s) \<and>
         logged (handleBinaryData ms c d s) = logged s @ [LogInvalidTwist (WSClient_ID c) err]"
  using assms by (simp add: HandleMessage_def handleBinaryData_def Let_def)

theorem decode_failure_drops_witness:
  "DecodeTwist short_frame = Inl (ErrInvalidMessageSize 56 48 3) \<and>
   peers (HandleMessage web_peer short_frame mixed_relay) = peers mixed_relay \<and>
   dataClients (HandleMessage web_peer short_frame mixed_relay) = dataClients mixed_relay \<and>
   ParseErrors (stats (HandleMessage web_peer short_frame mixed_relay)) = 1 \<and>
   MessagesForwarded (stats (HandleMessage web_peer short_frame mixed_relay)) = 0 \<and>
   dataClients (handleBinaryData 0 web_client short_frame mixed_relay) = dataClients mixed_relay \<and>
   ParseErrors (stats (handleBinaryData 0 web_client short_frame mixed_relay)) = 0"
proof -
  have dec: "DecodeTwist short_frame = Inl (ErrInvalidMessageSize 56 48 3)"
    by code_simp
  have z: "ParseErrors (stats mixed_relay) = 0" "MessagesForwarded (stats mixed_relay) = 0"
    by (simp_all add: mixed_relay_def NewRelay_def)
  from decode_failure_drops [OF dec, of web_peer mixed_relay 0 web_client] dec z
  show ?thesis
    by simp
qed

text \<open>
  The claim as the specification states it fails: the three bytes of \<open>short_frame\<close> fail
  decoding, and the robot peer \<open>p1\<close> and the robot client \<open>c2\<close>, which both receive a
  well-formed frame from the same origins, receive nothing; the socket path does not
  count a decode error.
\<close>

theorem decode_failure_counterexample:
  "DecodeTwist short_frame = Inl (ErrInvalidMessageSize 56 48 3) \<and>
   Type web_peer = PeerTypeWeb \<and> peer_role mixed_relay ''p1'' = Some PeerTypePython \<and>
   client_role mixed_relay ''c2'' = Some ''python'' \<and>
   peer_sent (HandleMessage web_peer legacy_frame mixed_relay) ''p1'' = [legacy_frame] \<and>
   client_queue (HandleMessage web_peer legacy_frame mixed_relay) ''c2'' = [Frame legacy_frame] \<and>
   peer_sent (HandleMessage web_peer short_frame mixed_relay) ''p1'' = [] \<and>
   client_queue (HandleMessage web_peer short_frame mixed_relay) ''c2'' = [] \<and>
   peer_sent (handleBinaryData 0 web_client legacy_frame mixed_relay) ''p1'' = [legacy_frame] \<and>
   client_queue (handleBinaryData 0 web_client legacy_frame mixed_relay) ''c2'' = [Frame legacy_frame] \<and>
   peer_sent (handleBinaryData 0 web_client short_frame mixed_relay) ''p1'' = [] \<and>
   client_queue (handleBinaryData 0 web_client short_frame mixed_relay) ''c2'' = [] \<and>
   ParseErrors (stats (handleBinaryData 0 web_client short_frame mixed_relay)) = 0"
  by code_simp

lemma HandleMessage_opposite:
  assumes "registry_ok s"
  shows "(peer_sent (HandleMessage origin d s) k \<noteq> peer_sent s k \<longrightarrow>
            opposite_role (Type origin) (peer_role s k)) \<and>
         (client_queue (HandleMessage origin d s) k \<noteq> client_queue s k \<longrightarrow>
            opposite_role (Type origin) (client_role s k))"
  using HandleMessage_peer_delivery [OF assms, of origin d k]
    HandleMessage_client_delivery [of origin d s k]
  by (auto simp add: opposite_role_def PeerTypeWeb_def PeerTypePython_def)

lemma handleBinaryData_opposite:
  assumes "registry_ok s"
  shows "(peer_sent (handleBinaryData ms c d s) k \<noteq> peer_sent s k \<longrightarrow>
            opposite_role (PeerType c) (peer_role s k)) \<and>
         (client_queue (handleBinaryData ms c d s) k \<noteq> client_queue s k \<longrightarrow>
            opposite_role (PeerType c) (client_role s k))"
proof (intro conjI impI)
  assume "peer_sent (handleBinaryData ms c d s) k \<noteq> peer_sent s k"
  from handleBinaryData_peer_delivery [OF assms this]
  show "opposite_role (PeerType c) (peer_role s k)"
    by (rule opposite_bridge_target)
next
  assume "client_queue (handleBinaryData ms c d s) k \<noteq> client_queue s k"
  from handleBinaryData_client_delivery [OF this]
  have "client_role s k = Some (fwd_target (PeerType c))"
    by (auto simp add: client_role_def)
  then show "opposite_role (PeerType c) (client_role s k)"
    by (rule opposite_fwd_target)
qed

text \<open>
  Claim C2.  In a relay whose registries hold each record under its own id, every peer
  and every data client that a routed frame reaches has a role across from the origin's
  (robot for a controller origin, controller for a robot origin), on the datagram entry
  \<open>HandleMessage\<close>, on the socket binary path and in \<open>forwardData\<close>.  When every
  registered record has the origin's own role, nothing is delivered and the forwarded
  counter stays as it was.
\<close>

theorem cross_role_delivery:
  assumes "registry_ok s"
  shows "(\<forall>k. peer_sent (HandleMessage origin d s) k \<noteq> peer_sent s k \<longrightarrow>
              opposite_role (Type origin) (peer_role s k)) \<and>
         (\<forall>k. client_queue (HandleMessage origin d s) k \<noteq> client_queue s k \<longrightarrow>
              opposite_role (Type origin) (client_role s k)) \<and>
         (\<forall>k. peer_sent (handleBinaryData ms c d s) k \<noteq> peer_sent s k \<longrightarrow>
              opposite_role (PeerType c) (peer_role s k)) \<and>
         (\<forall>k. client_queue (handleBinaryData ms c d s) k \<noteq> client_queue s k \<longrightarrow>
              opposite_role (PeerType c) (client_role s k)) \<and>
         (\<forall>k. client_queue (forwardData sid st d s) k \<noteq> client_queue s k \<longrightarrow>
              opposite_role st (client_role s k)) \<and>
         ((\<forall>k r. peer_role s k = Some r \<longrightarrow> r = Type origin) \<and>
          (\<forall>k r. client_role s k = Some r \<longrightarrow> r = Type origin) \<longrightarrow>
            peers (HandleMessage origin d s) = peers s \<and>
            dataClients (HandleMessage origin d s) = dataClients s \<and>
            MessagesForwarded (stats (HandleMessage origin d s)) =
              MessagesForwarded (stats s)) \<and>
         ((\<forall>k r. peer_role s k = Some r \<longrightarrow> r = PeerType c) \<and>
          (\<forall>k r. client_role s k = Some r \<longrightarrow> r = PeerType c) \<longrightarrow>
            peers (handleBinaryData ms c d s) = peers s \<and>
            dataClients (handleBinaryData ms c d s) = dataClients s \<and>
            MessagesForwarded (stats (handleBinaryData ms c d s)) =
              MessagesForwarded (stats s))"
  using HandleMessage_opposite [OF assms, of origin d]
    handleBinaryData_opposite [OF assms, of ms c d]
    forwardData_opposite [of sid st d s]
    HandleMessage_no_target [OF assms, of origin d]
    handleBinaryData_no_target [OF assms, of c ms d]
  by blast

lemma controllers_only_roles:
  "peer_role controllers_only k = Some r \<Longrightarrow> r = ''web''"
  "client_role controllers_only k = Some r \<Longrightarrow> r = ''web''"
  by (auto simp add: peer_role_def client_role_def controllers_only_def web_peer_def
      web_client_def PeerTypeWeb_def split: if_splits)

theorem cross_role_delivery_witness:
  "registry_ok mixed_relay \<and>
   peer_sent (HandleMessage web_peer legacy_frame mixed_relay) ''p1'' \<noteq>
     peer_sent mixed_relay ''p1'' \<and>
   opposite_role (Type web_peer) (peer_role mixed_relay ''p1'') \<and>
   client_queue (handleBinaryData 0 py_client legacy_frame mixed_relay) ''c1'' \<noteq>
     client_queue mixed_relay ''c1'' \<and>
   opposite_role (PeerType py_client) (client_role mixed_relay ''c1'') \<and>
   registry_ok controllers_only \<and>
   dataClients (HandleMessage web_peer legacy_frame controllers_only) =
     dataClients controllers_only \<and>
   peers (HandleMessage web_peer legacy_frame controllers_only) = peers controllers_only \<and>
   MessagesForwarded (stats (HandleMessage web_peer legacy_frame controllers_only)) =
     MessagesForwarded (stats controllers_only) \<and>
   MessagesForwarded (stats (handleBinaryData 0 web_client legacy_frame controllers_only)) =
     MessagesForwarded (stats controllers_only)"
proof -
  have ok: "registry_ok mixed_relay"
    by code_simp
  have ok': "registry_ok controllers_only"
    by code_simp
  have ch1: "peer_sent (HandleMessage web_peer legacy_frame mixed_relay) ''p1'' \<noteq>
      peer_sent mixed_relay ''p1''"
    by code_simp
  have ch2: "client_queue (handleBinaryData 0 py_client legacy_frame mixed_relay) ''c1'' \<noteq>
      client_queue mixed_relay ''c1''"
    by code_simp
  have ty: "Type web_peer = ''web''" "PeerType web_client = ''web''"
    by (simp_all add: web_peer_def web_client_def PeerTypeWeb_def)
  note m = cross_role_delivery [OF ok, of web_peer legacy_frame 0 py_client]
  note c = cross_role_delivery [OF ok', of web_peer legacy_frame 0 web_client]
  from m ch1 have r1: "opposite_role (Type web_peer) (peer_role mixed_relay ''p1'')"
    by blast
  from m ch2 have r2: "opposite_role (PeerType py_client) (client_role mixed_relay ''c1'')"
    by blast
  from c controllers_only_roles ty
  have r3: "peers (HandleMessage web_peer legacy_frame controllers_only) = peers controllers_only \<and>
      dataClients (HandleMessage web_peer legacy_frame controllers_only) =
        dataClients controllers_only \<and>
      MessagesForwarded (stats (HandleMessage web_peer legacy_frame controllers_only)) =
        MessagesForwarded (stats controllers_only)"
    by metis
  from c controllers_only_roles ty
  have r4: "MessagesForwarded (stats (handleBinaryData 0 web_client legacy_frame controllers_only)) =
      MessagesForwarded (stats controllers_only)"
    by metis
  from ok ok' ch1 ch2 r1 r2 r3 r4 show ?thesis
    by blast
qed

text \<open>
  Claim C3.  The origin is never a target of its own frame: \<open>forwardData\<close> and the
  socket binary path leave the sender's own buffer as it was, \<open>HandleMessage\<close> hands
  nothing to the data channel of the registered origin, and bridging stays on the other
  transport: \<open>WSManager.BroadcastToType\<close> touches no datagram peer, and
  \<open>PeerManager.BroadcastToType\<close> and \<open>forwardData\<close> touch, respectively, no data
  client and no datagram peer.
\<close>

theorem no_self_delivery:
  assumes "registry_ok s"
  shows "client_queue (forwardData sid st d s) sid = client_queue s sid \<and>
         client_queue (handleBinaryData ms c d s) (WSClient_ID c) =
           client_queue s (WSClient_ID c) \<and>
         (GetPeer s (ID origin) = Some origin \<longrightarrow>
            peer_sent (HandleMessage origin d s) (ID origin) = peer_sent s (ID origin)) \<and>
         peers (snd (WS_BroadcastToType t d s)) = peers s \<and>
         dataClients (snd (PM_BroadcastToType t d s)) = dataClients s \<and>
         peers (forwardData sid st d s) = peers s"
  using forwardData_self [OF assms, of sid st d] handleBinaryData_self [OF assms, of ms c d]
    HandleMessage_self [OF assms, of origin d]
  by (simp add: WS_BroadcastToType_rest PM_BroadcastToType_fields forwardData_peers)

theorem no_self_delivery_witness:
  "registry_ok mixed_relay \<and> GetPeer mixed_relay (ID web_peer) = Some web_peer \<and>
   client_queue (forwardData ''c1'' ''web'' legacy_frame mixed_relay) ''c1'' =
     client_queue mixed_relay ''c1'' \<and>
   client_queue (handleBinaryData 0 web_client legacy_frame mixed_relay) (WSClient_ID web_client) =
     client_queue mixed_relay (WSClient_ID web_client) \<and>
   peer_sent (HandleMessage web_peer legacy_frame mixed_relay) (ID web_peer) =
     peer_sent mixed_relay (ID web_peer) \<and>
   peers (snd (WS_BroadcastToType ''python'' legacy_frame mixed_relay)) = peers mixed_relay"
proof -
  have ok: "registry_ok mixed_relay"
    by code_simp
  have reg: "GetPeer mixed_relay (ID web_peer) = Some web_peer"
    by (simp add: GetPeer_def mixed_relay_def web_peer_def)
  from no_self_delivery [OF ok, of "''c1''" "''web''" legacy_frame 0 web_client web_peer "''python''"]
    ok reg show ?thesis
    by simp
qed


section \<open>The JSON carrier\<close>

text \<open>
  Claim C10.  A JSON envelope of type \<open>twist\<close> on the data socket is handed to
  \<open>forwardData\<close> and to nothing else: the payload reaches data clients of the role
  across from the sender's only, every such client with room in its buffer gets it
  whatever the payload is (it is not decoded), no datagram peer is touched, and the
  received and decode-error counters stay as they were.
\<close>

theorem twist_envelope_socket_only:
  assumes "msg_Type msg = ''twist''"
  shows "handleDataMessage ms c msg s =
           Returns (forwardData (WSClient_ID c) (PeerType c) (msg_Data msg) s) \<and>
         peers (forwardData (WSClient_ID c) (PeerType c) (msg_Data msg) s) = peers s \<and>
         MessagesReceived (stats (forwardData (WSClient_ID c) (PeerType c) (msg_Data msg) s)) =
           MessagesReceived (stats s) \<and>
         ParseErrors (stats (forwardData (WSClient_ID c) (PeerType c) (msg_Data msg) s)) =
           ParseErrors (stats s) \<and>
         (\<forall>k. client_queue (forwardData (WSClient_ID c) (PeerType c) (msg_Data msg) s) k \<noteq>
                client_queue s k \<longrightarrow>
              opposite_role (PeerType c) (client_role s k)) \<and>
         (\<forall>k c'. map_of (dataClients s) k = Some c' \<and> WSClient_ID c' \<noteq> WSClient_ID c \<and>
                 PeerType c' = fwd_target (PeerType c) \<and> length (Send c') < SendCap c' \<longrightarrow>
              client_queue (forwardData (WSClient_ID c) (PeerType c) (msg_Data msg) s) k =
                Send c' @ [Frame (msg_Data msg)])"
proof -
  have "handleDataMessage ms c msg s =
      Returns (forwardData (WSClient_ID c) (PeerType c) (msg_Data msg) s)"
    using assms by (simp add: handleDataMessage_def)
  moreover have "\<forall>k c'. map_of (dataClients s) k = Some c' \<and> WSClient_ID c' \<noteq> WSClient_ID c \<and>
                 PeerType c' = fwd_target (PeerType c) \<and> length (Send c') < SendCap c' \<longrightarrow>
              client_queue (forwardData (WSClient_ID c) (PeerType c) (msg_Data msg) s) k =
                Send c' @ [Frame (msg_Data msg)]"
    by (simp add: client_queue_enqueue [OF forwardData_clients])
  ultimately show ?thesis
    using forwardData_opposite [of "WSClient_ID c" "PeerType c" "msg_Data msg" s]
    by (simp add: forwardData_peers forwardData_stats)
qed

theorem twist_envelope_socket_only_witness:
  "msg_Type twist_envelope = ''twist'' \<and>
   DecodeTwist (msg_Data twist_envelope) = Inl (ErrInvalidMessageSize 56 48 3) \<and>
   handleDataMessage 0 web_client twist_envelope mixed_relay =
     Returns (forwardData ''c1'' ''web'' short_frame mixed_relay) \<and>
   client_queue (forwardData ''c1'' ''web'' short_frame mixed_relay) ''c2'' = [Frame short_frame] \<and>
   opposite_role ''web'' (client_role mixed_relay ''c2'') \<and>
   peers (forwardData ''c1'' ''web'' short_frame mixed_relay) = peers mixed_relay \<and>
   MessagesReceived (stats (forwardData ''c1'' ''web'' short_frame mixed_relay)) = 0 \<and>
   peer_sent (forwardData ''c1'' ''web'' short_frame mixed_relay) ''p1'' = []"
proof -
  have ty: "msg_Type twist_envelope = ''twist''"
    by (simp add: twist_envelope_def)
  have dec: "DecodeTwist (msg_Data twist_envelope) = Inl (ErrInvalidMessageSize 56 48 3)"
    by code_simp
  have c: "WSClient_ID web_client = ''c1''" "PeerType web_client = ''web''"
    "msg_Data twist_envelope = short_frame"
    by (simp_all add: web_client_def twist_envelope_def)
  have q: "client_queue (forwardData ''c1'' ''web'' short_frame mixed_relay) ''c2'' =
      [Frame short_frame]"
    by code_simp
  have z: "MessagesReceived (stats mixed_relay) = 0" "peer_sent mixed_relay ''p1'' = []"
    by code_simp+
  note t = twist_envelope_socket_only [OF ty, of 0 web_client mixed_relay, unfolded c]
  have ch: "client_queue (forwardData ''c1'' ''web'' short_frame mixed_relay) ''c2'' \<noteq>
      client_queue mixed_relay ''c2''"
    by code_simp
  from t ch have "opposite_role ''web'' (client_role mixed_relay ''c2'')"
    by blast
  moreover from t have "peer_sent (forwardData ''c1'' ''web'' short_frame mixed_relay) ''p1'' = []"
    using obs_peers_cong [of "forwardData ''c1'' ''web'' short_frame mixed_relay" mixed_relay] z
    by simp
  ultimately show ?thesis
    using t ty dec q z by simp
qed


section \<open>Signaling: proofs\<close>






section \<open>Invariants of the reachable states\<close>

lemma list_all_update:
  "list_all (\<lambda>(k, v). Q k v) al \<Longrightarrow> Q k v \<Longrightarrow> list_all (\<lambda>(k, v). Q k v) (AList.update k v al)"
  by (induction al) auto

lemma list_all_delete:
  "list_all P al \<Longrightarrow> list_all P (AList.delete k al)"
  by (induction al) auto

lemma list_all_map_values:
  "list_all (\<lambda>(k, v). Q k v) al \<Longrightarrow> (\<And>k v. Q k v \<Longrightarrow> Q k (f k v)) \<Longrightarrow>
     list_all (\<lambda>(k, v). Q k v) (map (\<lambda>(k, v). (k, f k v)) al)"
  by (induction al) auto

lemma map_fst_map_values: "map fst (map (\<lambda>(k, v). (k, f k v)) al) = map fst al"
  by (induction al) auto

lemma relay_inv_iff:
  "relay_inv s \<longleftrightarrow>
     distinct (map fst (peers s)) \<and> list_all (\<lambda>(k, p). ID p = k) (peers s) \<and>
     distinct (map fst (dataClients s)) \<and>
     list_all (\<lambda>(k, c). WSClient_ID c = k \<and> SendCap c = 256 \<and> length (Send c) \<le> 256)
       (dataClients s)"
  by (auto simp add: relay_inv_def registry_ok_def buffers_bounded_def list_all_iff)

lemma relay_inv_cong:
  "peers s' = peers s \<Longrightarrow> dataClients s' = dataClients s \<Longrightarrow> relay_inv s' = relay_inv s"
  by (simp add: relay_inv_iff)

lemma relay_inv_enqueue:
  assumes "relay_inv s" and "peers s' = peers s"
    and "dataClients s' = map (\<lambda>(k, c). (k, enqueue_frame (E c) d c)) (dataClients s)"
  shows "relay_inv s'"
proof -
  have keys: "distinct (map fst (dataClients s'))"
    using assms(1) unfolding assms(3) map_fst_map_values relay_inv_iff by simp
  have "list_all (\<lambda>(k, c). WSClient_ID c = k \<and> SendCap c = 256 \<and> length (Send c) \<le> 256)
      (map (\<lambda>(k, c). (k, enqueue_frame (E c) d c)) (dataClients s))"
    using assms(1) unfolding relay_inv_iff
    by (intro list_all_map_values) (auto simp add: enqueue_frame_def)
  with assms keys show ?thesis
    by (simp add: relay_inv_iff)
qed

lemma relay_inv_SendToPeer:
  assumes "relay_inv s"
  shows "relay_inv (snd (SendToPeer k d s))"
proof -
  have "dataClients (snd (SendToPeer k d s)) = dataClients s"
    using SendToPeer_rest [of k d s, THEN arg_cong, of dataClients] by simp
  moreover have "map fst (peers (snd (SendToPeer k d s))) = map fst (peers s)"
    by (auto simp add: SendToPeer_def GetPeer_def update_keys map_of_eq_None_iff [symmetric]
        split: option.splits)
  moreover have "list_all (\<lambda>(k, p). ID p = k) (peers (snd (SendToPeer k d s)))"
  proof (cases "map_of (peers s) k")
    case None
    with assms show ?thesis
      by (simp add: SendToPeer_def GetPeer_def relay_inv_iff)
  next
    case (Some p)
    then have "(k, p) \<in> set (peers s)"
      by (rule map_of_SomeD)
    with assms have "ID p = k"
      by (auto simp add: relay_inv_iff list_all_iff)
    with assms Some show ?thesis
      by (auto simp add: SendToPeer_def GetPeer_def relay_inv_iff split: option.splits
          intro!: list_all_update)
  qed
  ultimately show ?thesis
    using assms by (simp add: relay_inv_iff)
qed

lemma relay_inv_PM_broadcast_loop:
  "relay_inv s \<Longrightarrow> relay_inv (snd (PM_broadcast_loop ps d n s))"
proof (induction ps arbitrary: n s)
  case Nil
  then show ?case by simp
next
  case (Cons p ps)
  obtain r s1 where st: "SendToPeer (ID p) d s = (r, s1)"
    by (cases "SendToPeer (ID p) d s")
  with Cons.prems have "relay_inv s1"
    using relay_inv_SendToPeer [of s "ID p" d] by simp
  with st Cons.IH [of s1] show ?case
    by (cases r) simp_all
qed

lemma relay_inv_PM_BroadcastToType: "relay_inv s \<Longrightarrow> relay_inv (snd (PM_BroadcastToType t d s))"
  unfolding PM_BroadcastToType_def by (rule relay_inv_PM_broadcast_loop)

lemma relay_inv_forwardData: "relay_inv s \<Longrightarrow> relay_inv (forwardData sid st d s)"
  by (rule relay_inv_enqueue [OF _ forwardData_peers forwardData_clients])

lemma relay_inv_route_to:
  assumes "relay_inv s"
  shows "relay_inv (route_to pt wt sm d s)"
proof -
  let ?s1 = "snd (PM_BroadcastToType pt d s)"
  have s1: "relay_inv ?s1"
    using assms by (rule relay_inv_PM_BroadcastToType)
  have d1: "dataClients ?s1 = dataClients s"
    by (simp add: PM_BroadcastToType_fields)
  show ?thesis
  proof (cases "wsManager_set s")
    case True
    then have "dataClients (route_to pt wt sm d s) =
        map (\<lambda>(k, c). (k, enqueue_frame (PeerType c = wt) d c)) (dataClients ?s1)"
      by (simp add: route_to_clients d1)
    from relay_inv_enqueue [OF s1 route_to_peers this] show ?thesis .
  next
    case False
    then have "dataClients (route_to pt wt sm d s) = dataClients ?s1"
      by (simp add: route_to_clients d1)
    from relay_inv_cong [OF route_to_peers this] s1 show ?thesis
      by simp
  qed
qed

lemma relay_inv_log_Printf: "relay_inv (log_Printf e s) = relay_inv s"
  by (rule relay_inv_cong) simp_all

lemma relay_inv_HandleMessage: "relay_inv s \<Longrightarrow> relay_inv (HandleMessage origin d s)"
proof (cases rule: HandleMessage_cases [of d origin s])
  case (reject err)
  moreover assume "relay_inv s"
  ultimately show ?thesis
    using relay_inv_cong [of "HandleMessage origin d s" s] by simp
next
  case (web s0 twist)
  moreover assume "relay_inv s"
  ultimately have "relay_inv s0"
    using relay_inv_cong [of s0 s] by simp
  then show ?thesis
    unfolding web(7) by (rule relay_inv_route_to)
next
  case (python s0 twist)
  moreover assume "relay_inv s"
  ultimately have "relay_inv s0"
    using relay_inv_cong [of s0 s] by simp
  then show ?thesis
    unfolding python(7) by (rule relay_inv_route_to)
next
  case (other twist)
  moreover assume "relay_inv s"
  ultimately show ?thesis
    using relay_inv_cong [of "HandleMessage origin d s" s] by simp
qed

lemma relay_inv_handleBinaryData: "relay_inv s \<Longrightarrow> relay_inv (handleBinaryData ms c d s)"
proof (cases rule: handleBinaryData_cases [of d ms c s])
  case (reject err)
  moreover assume "relay_inv s"
  ultimately show ?thesis
    using relay_inv_cong [of "handleBinaryData ms c d s" s] by simp
next
  case (ok s0 s1 twist)
  assume "relay_inv s"
  with ok(2,3) have "relay_inv s0"
    using relay_inv_cong [of s0 s] by simp
  then have s1: "relay_inv s1"
    unfolding ok(6) by (rule relay_inv_forwardData)
  have p1: "peers s1 = peers s"
    by (simp add: ok(6) forwardData_peers ok(2))
  show ?thesis
  proof (cases "peerManager_set s")
    case True
    let ?s2 = "snd (PM_BroadcastToType (bridge_target (PeerType c)) d s1)"
    have "relay_inv ?s2"
      using s1 by (rule relay_inv_PM_BroadcastToType)
    moreover have "peers (handleBinaryData ms c d s) = peers ?s2"
      using True ok(8) by simp
    moreover have "dataClients (handleBinaryData ms c d s) = dataClients ?s2"
      by (simp add: ok(7) PM_BroadcastToType_fields)
    ultimately show ?thesis
      using relay_inv_cong [of "handleBinaryData ms c d s" ?s2] by simp
  next
    case False
    with ok(7,8) p1 s1 show ?thesis
      using relay_inv_cong [of "handleBinaryData ms c d s" s1] by simp
  qed
qed

lemma relay_inv_client:
  assumes "relay_inv s" and "map_of (dataClients s) k = Some c"
  shows "WSClient_ID c = k \<and> SendCap c = 256 \<and> length (Send c) \<le> 256"
proof -
  from assms(2) have "(k, c) \<in> set (dataClients s)"
    by (rule map_of_SomeD)
  with assms(1) show ?thesis
    by (auto simp add: relay_inv_iff list_all_iff)
qed

lemma relay_inv_update_client:
  assumes "relay_inv s" and "WSClient_ID c = k" and "SendCap c = 256" and "length (Send c) \<le> 256"
  shows "relay_inv (s\<lparr>dataClients := AList.update k c (dataClients s)\<rparr>)"
  using assms by (auto simp add: relay_inv_iff distinct_update intro!: list_all_update)

lemma relay_inv_blocking_send:
  assumes "relay_inv s" and "blocking_send cid item s = Returns s'"
  shows "relay_inv s'"
proof -
  from assms(2) obtain c where c: "map_of (dataClients s) cid = Some c"
      "length (Send c) < SendCap c"
      "s' = s\<lparr>dataClients := AList.update cid (c\<lparr>Send := Send c @ [item]\<rparr>) (dataClients s)\<rparr>"
    by (auto simp add: blocking_send_def try_send_def split: option.splits if_splits)
  from relay_inv_client [OF assms(1) c(1)] c(2) show ?thesis
    unfolding c(3) by (intro relay_inv_update_client [OF assms(1)]) simp_all
qed

lemma relay_inv_handleDataMessage:
  assumes "relay_inv s" and "handleDataMessage ms c msg s = Returns s'"
  shows "relay_inv s'"
proof -
  consider "msg_Type msg = ''twist''" | "msg_Type msg \<noteq> ''twist''" "msg_Type msg = ''ping''"
    | "msg_Type msg \<noteq> ''twist''" "msg_Type msg \<noteq> ''ping''"
    by blast
  then show ?thesis
  proof cases
    case 1
    with assms(2) have "s' = forwardData (WSClient_ID c) (PeerType c) (msg_Data msg) s"
      by (simp add: handleDataMessage_def)
    with assms(1) show ?thesis
      by (simp add: relay_inv_forwardData)
  next
    case 2
    with assms(2) obtain item where "blocking_send (WSClient_ID c) item s = Returns s'"
      by (simp add: handleDataMessage_def Let_def)
    with assms(1) show ?thesis
      by (rule relay_inv_blocking_send)
  next
    case 3
    with assms(2) have "s' = log_Printf (LogUnknownType (msg_Type msg)) s"
      by (simp add: handleDataMessage_def)
    with assms(1) show ?thesis
      using relay_inv_cong [of s' s] by simp
  qed
qed

lemma relay_inv_HandleDataWS:
  assumes "relay_inv s" and "HandleDataWS upgradeErr typeParam clientID ms s = Returns s'"
  shows "relay_inv s'"
proof (cases upgradeErr)
  case (Some err)
  with assms show ?thesis
    using relay_inv_cong [of s' s] by (auto simp add: HandleDataWS_def)
next
  case None
  define client where "client =
      \<lparr> WSClient_ID = clientID, PeerType = (if typeParam = [] then ''web'' else typeParam),
        Send = [], SendCap = 256 \<rparr>"
  define s1 where "s1 = s\<lparr>dataClients := AList.update clientID client (dataClients s)\<rparr>"
  have "relay_inv s1"
    unfolding s1_def by (rule relay_inv_update_client [OF assms(1)]) (simp_all add: client_def)
  then have s2: "relay_inv (log_Printf (LogClientConnected clientID (PeerType client)) s1)"
    using relay_inv_cong [of "log_Printf (LogClientConnected clientID (PeerType client)) s1" s1]
    by simp
  from assms(2) None obtain item where
    "blocking_send clientID item (log_Printf (LogClientConnected clientID (PeerType client)) s1)
       = Returns s'"
    by (simp add: HandleDataWS_def Let_def s1_def client_def)
  with s2 show ?thesis
    by (rule relay_inv_blocking_send)
qed

lemma relay_inv_removeDataClient: "relay_inv s \<Longrightarrow> relay_inv (removeDataClient cid s)"
  by (auto simp add: removeDataClient_def relay_inv_iff distinct_delete log_Printf_def
      split: option.splits intro!: list_all_delete)

lemma relay_inv_writePump_recv: "relay_inv s \<Longrightarrow> relay_inv (snd (writePump_recv cid s))"
proof (cases "map_of (dataClients s) cid")
  case None
  moreover assume "relay_inv s"
  ultimately show ?thesis
    by (simp add: writePump_recv_def)
next
  case (Some c)
  assume i: "relay_inv s"
  show ?thesis
  proof (cases "Send c")
    case Nil
    with Some i show ?thesis
      by (simp add: writePump_recv_def)
  next
    case (Cons item rest)
    from relay_inv_client [OF i Some] Cons
    have "relay_inv (s\<lparr>dataClients := AList.update cid (c\<lparr>Send := rest\<rparr>) (dataClients s)\<rparr>)"
      by (intro relay_inv_update_client [OF i]) simp_all
    with Some Cons show ?thesis
      by (simp add: writePump_recv_def)
  qed
qed

lemma relay_inv_update_peer:
  assumes "relay_inv s" and "ID p = k"
  shows "relay_inv (s\<lparr>peers := AList.update k p (peers s)\<rparr>)"
  using assms by (auto simp add: relay_inv_iff distinct_update intro!: list_all_update)

lemma relay_inv_RemovePeer: "relay_inv s \<Longrightarrow> relay_inv (RemovePeer peerID s)"
  by (auto simp add: RemovePeer_def relay_inv_iff distinct_delete log_Printf_def
      split: option.splits intro!: list_all_delete)

lemma relay_inv_setupDataChannel: "relay_inv s \<Longrightarrow> relay_inv (setupDataChannel peerID dc s)"
proof (cases "map_of (peers s) peerID")
  case None
  moreover assume "relay_inv s"
  ultimately show ?thesis
    by (simp add: setupDataChannel_def)
next
  case (Some p)
  assume i: "relay_inv s"
  from Some have "(peerID, p) \<in> set (peers s)"
    by (rule map_of_SomeD)
  with i have "ID p = peerID"
    by (auto simp add: relay_inv_iff list_all_iff)
  then have "relay_inv (s\<lparr>peers := AList.update peerID (p\<lparr>DataChannel := Some dc\<rparr>) (peers s)\<rparr>)"
    by (intro relay_inv_update_peer [OF i]) simp
  with Some show ?thesis
    by (simp add: setupDataChannel_def)
qed

lemma relay_inv_CreatePeer:
  assumes "relay_inv s" and "CreatePeer newpc peerID peerType s = Inr (peer, s1)"
  shows "relay_inv s1"
proof -
  from assms(2) obtain pc where
    s1: "s1 = log_Printf (LogCreatedPeer peerID peerType)
        (s\<lparr>peers := AList.update peerID
            \<lparr> ID = peerID, Type = peerType, Connection = pc, DataChannel = None \<rparr> (peers s)\<rparr>)"
    by (auto simp add: CreatePeer_def Let_def split: sum.splits)
  have "relay_inv (s\<lparr>peers := AList.update peerID
            \<lparr> ID = peerID, Type = peerType, Connection = pc, DataChannel = None \<rparr> (peers s)\<rparr>)"
    by (rule relay_inv_update_peer [OF assms(1)]) simp
  then show ?thesis
    unfolding s1 by (simp add: relay_inv_log_Printf)
qed

lemma relay_inv_handleOffer:
  assumes "relay_inv s"
  shows "relay_inv (snd (handleOffer method body newpc peerID s))"
proof (cases "method = ''POST''")
  case False
  with assms show ?thesis
    by (simp add: handleOffer_def)
next
  case post: True
  show ?thesis
  proof (cases body)
    case (Inl err)
    with assms post show ?thesis
      by (simp add: handleOffer_def)
  next
    case (Inr req)
    define peerType where "peerType =
      (if req_PeerType req \<noteq> PeerTypeWeb \<and> req_PeerType req \<noteq> PeerTypePython
       then PeerTypeWeb else req_PeerType req)"
    show ?thesis
    proof (cases "CreatePeer newpc peerID peerType s")
      case (Inl err)
      with assms post Inr show ?thesis
        by (simp add: handleOffer_def Let_def peerType_def [symmetric])
    next
      case cp: (Inr ps)
      obtain peer s1 where ps: "ps = (peer, s1)"
        by (cases ps)
      from relay_inv_CreatePeer [OF assms cp [unfolded ps]] have s1: "relay_inv s1" .
      then have "relay_inv (RemovePeer (ID peer) s1)"
        by (rule relay_inv_RemovePeer)
      with s1 post Inr cp ps show ?thesis
        by (simp add: handleOffer_def Let_def peerType_def [symmetric] relay_inv_log_Printf
            split: option.splits)
    qed
  qed
qed

lemma relay_inv_NewRelay: "relay_inv NewRelay"
  by (simp add: relay_inv_iff NewRelay_def)

lemma reachable_relay_inv: "reachable s \<Longrightarrow> relay_inv s"
proof (induction rule: reachable.induct)
  case at_start
  show ?case by (rule relay_inv_NewRelay)
next
  case (on_upgrade s upgradeErr typeParam clientID unixMilli s')
  then show ?case by (blast intro: relay_inv_HandleDataWS)
next
  case (on_binary s k c unixMilli data)
  then show ?case by (simp add: relay_inv_handleBinaryData)
next
  case (on_text s k c unixMilli msg s')
  then show ?case by (blast intro: relay_inv_handleDataMessage)
next
  case (on_disconnect s cid)
  then show ?case by (simp add: relay_inv_removeDataClient)
next
  case (on_drain s cid)
  then show ?case by (simp add: relay_inv_writePump_recv)
next
  case (on_offer s httpMethod body newpc peerID)
  then show ?case by (simp add: relay_inv_handleOffer)
next
  case (on_channel s peerID dc)
  then show ?case by (simp add: relay_inv_setupDataChannel)
next
  case (on_message s k origin data)
  then show ?case by (simp add: relay_inv_HandleMessage)
next
  case (on_remove s peerID)
  then show ?case by (simp add: relay_inv_RemovePeer)
qed


section \<open>Backpressure\<close>

lemma HandleDataWS_creates:
  "\<exists>s' c. HandleDataWS None typeParam clientID ms s = Returns s' \<and>
          map_of (dataClients s') clientID = Some c \<and> SendCap c = 256 \<and> length (Send c) = 1"
  by (simp add: HandleDataWS_def Let_def blocking_send_def try_send_def log_Printf_def
      update_conv')

lemma full_buffer_logged:
  assumes "map_of cs k = Some c" and "E c" and "SendCap c \<le> length (Send c)"
  shows "LogSendBufferFull (WSClient_ID c) \<in>
           set (map (\<lambda>(k, c). LogSendBufferFull (WSClient_ID c))
                  (filter (\<lambda>(k, c). E c \<and> \<not> length (Send c) < SendCap c) cs))"
proof -
  from assms(1) have "(k, c) \<in> set cs"
    by (rule map_of_SomeD)
  with assms(2,3) show ?thesis
    by (force simp add: image_iff)
qed

text \<open>
  Claim C7.  Every outbound buffer of a reachable state was made with capacity 256 and
  holds at most 256 items; \<open>HandleDataWS\<close> makes it so, with the welcome message as
  its first item.  A fan-out loop (\<open>WSManager.BroadcastToType\<close> for a datagram
  origin, \<open>forwardData\<close> for a socket origin) that meets a target with a full buffer
  leaves that buffer as it is and logs \<open>Send buffer full\<close> for it, and a target with
  room gets the frame whatever the state of the other buffers.  Both loops are total:
  they take the \<open>default\<close> branch where a plain send would block.
\<close>

theorem send_buffer_bounded:
  "(reachable s \<longrightarrow> buffers_bounded s) \<and>
   (\<exists>s' c. HandleDataWS None typeParam clientID ms s = Returns s' \<and>
      map_of (dataClients s') clientID = Some c \<and> SendCap c = 256 \<and> length (Send c) = 1) \<and>
   (\<forall>k c. map_of (dataClients s) k = Some c \<and> PeerType c = t \<and>
           SendCap c \<le> length (Send c) \<longrightarrow>
      client_queue (snd (WS_BroadcastToType t d s)) k = Send c \<and>
      LogSendBufferFull (WSClient_ID c) \<in>
        set (drop (length (logged s)) (logged (snd (WS_BroadcastToType t d s))))) \<and>
   (\<forall>k c. map_of (dataClients s) k = Some c \<and> PeerType c = t \<and>
           length (Send c) < SendCap c \<longrightarrow>
      client_queue (snd (WS_BroadcastToType t d s)) k = Send c @ [Frame d]) \<and>
   (\<forall>k c. map_of (dataClients s) k = Some c \<and> WSClient_ID c \<noteq> sid \<and>
           PeerType c = fwd_target st \<and> SendCap c \<le> length (Send c) \<longrightarrow>
      client_queue (forwardData sid st d s) k = Send c \<and>
      LogSendBufferFull (WSClient_ID c) \<in>
        set (drop (length (logged s)) (logged (forwardData sid st d s)))) \<and>
   (\<forall>k c. map_of (dataClients s) k = Some c \<and> WSClient_ID c \<noteq> sid \<and>
           PeerType c = fwd_target st \<and> length (Send c) < SendCap c \<longrightarrow>
      client_queue (forwardData sid st d s) k = Send c @ [Frame d])"
proof (intro conjI allI impI)
  assume "reachable s"
  then show "buffers_bounded s"
    using reachable_relay_inv by (simp add: relay_inv_def)
next
  show "\<exists>s' c. HandleDataWS None typeParam clientID ms s = Returns s' \<and>
      map_of (dataClients s') clientID = Some c \<and> SendCap c = 256 \<and> length (Send c) = 1"
    by (rule HandleDataWS_creates)
next
  fix k c
  assume a: "map_of (dataClients s) k = Some c \<and> PeerType c = t \<and> SendCap c \<le> length (Send c)"
  then show "client_queue (snd (WS_BroadcastToType t d s)) k = Send c"
    by (simp add: client_queue_enqueue [OF WS_BroadcastToType_clients])
  from a show "LogSendBufferFull (WSClient_ID c) \<in>
        set (drop (length (logged s)) (logged (snd (WS_BroadcastToType t d s))))"
    using full_buffer_logged [of "dataClients s" k c "\<lambda>c. PeerType c = t"]
    by (simp add: WS_BroadcastToType_logged)
next
  fix k c
  assume "map_of (dataClients s) k = Some c \<and> PeerType c = t \<and> length (Send c) < SendCap c"
  then show "client_queue (snd (WS_BroadcastToType t d s)) k = Send c @ [Frame d]"
    by (simp add: client_queue_enqueue [OF WS_BroadcastToType_clients])
next
  fix k c
  assume a: "map_of (dataClients s) k = Some c \<and> WSClient_ID c \<noteq> sid \<and>
           PeerType c = fwd_target st \<and> SendCap c \<le> length (Send c)"
  then show "client_queue (forwardData sid st d s) k = Send c"
    by (simp add: client_queue_enqueue [OF forwardData_clients])
  from a show "LogSendBufferFull (WSClient_ID c) \<in>
        set (drop (length (logged s)) (logged (forwardData sid st d s)))"
    using full_buffer_logged [of "dataClients s" k c
        "\<lambda>c. WSClient_ID c \<noteq> sid \<and> PeerType c = fwd_target st"]
    by (simp add: forwardData_logged)
next
  fix k c
  assume "map_of (dataClients s) k = Some c \<and> WSClient_ID c \<noteq> sid \<and>
           PeerType c = fwd_target st \<and> length (Send c) < SendCap c"
  then show "client_queue (forwardData sid st d s) k = Send c @ [Frame d]"
    by (simp add: client_queue_enqueue [OF forwardData_clients])
qed

theorem send_buffer_bounded_witness:
  "reachable first_robot \<and> buffers_bounded first_robot \<and>
   map_of (dataClients jammed_relay) ''c2'' =
     Some (py_client\<lparr>Send := replicate 256 (Frame legacy_frame)\<rparr>) \<and>
   client_queue (snd (WS_BroadcastToType ''python'' legacy_frame jammed_relay)) ''c2'' =
     replicate 256 (Frame legacy_frame) \<and>
   LogSendBufferFull ''c2'' \<in>
     set (logged (snd (WS_BroadcastToType ''python'' legacy_frame jammed_relay))) \<and>
   client_queue (snd (WS_BroadcastToType ''python'' legacy_frame jammed_relay)) ''c4'' =
     [Frame legacy_frame]"
proof -
  have up: "HandleDataWS None ''python'' ''r1'' 0 NewRelay = Returns first_robot"
    by code_simp
  have r: "reachable first_robot"
    by (rule reachable.on_upgrade [OF reachable.at_start up])
  have c2: "map_of (dataClients jammed_relay) ''c2'' =
      Some (py_client\<lparr>Send := replicate 256 (Frame legacy_frame)\<rparr>)"
    and c4: "map_of (dataClients jammed_relay) ''c4'' = Some (py_client\<lparr>WSClient_ID := ''c4''\<rparr>)"
    and lg: "logged jammed_relay = []"
    by (simp_all add: jammed_relay_def NewRelay_def)
  have f: "PeerType (py_client\<lparr>Send := replicate 256 (Frame legacy_frame)\<rparr>) = ''python''"
    "SendCap (py_client\<lparr>Send := replicate 256 (Frame legacy_frame)\<rparr>) = 256"
    "WSClient_ID (py_client\<lparr>Send := replicate 256 (Frame legacy_frame)\<rparr>) = ''c2''"
    "PeerType (py_client\<lparr>WSClient_ID := ''c4''\<rparr>) = ''python''"
    "SendCap (py_client\<lparr>WSClient_ID := ''c4''\<rparr>) = 256"
    "Send (py_client\<lparr>WSClient_ID := ''c4''\<rparr>) = []"
    by (simp_all add: py_client_def)
  note a = send_buffer_bounded [where s = first_robot, THEN conjunct1]
  note j = send_buffer_bounded [where s = jammed_relay and t = "''python''" and d = legacy_frame]
  from a r have b: "buffers_bounded first_robot"
    by simp
  from j [THEN conjunct2, THEN conjunct2, THEN conjunct1, rule_format,
      of "''c2''" "py_client\<lparr>Send := replicate 256 (Frame legacy_frame)\<rparr>"] c2 f lg
  have full: "client_queue (snd (WS_BroadcastToType ''python'' legacy_frame jammed_relay)) ''c2'' =
      replicate 256 (Frame legacy_frame) \<and>
    LogSendBufferFull ''c2'' \<in>
      set (logged (snd (WS_BroadcastToType ''python'' legacy_frame jammed_relay)))"
    by simp
  from j [THEN conjunct2, THEN conjunct2, THEN conjunct2, THEN conjunct1, rule_format,
      of "''c4''" "py_client\<lparr>WSClient_ID := ''c4''\<rparr>"] c4 f
  have room: "client_queue (snd (WS_BroadcastToType ''python'' legacy_frame jammed_relay)) ''c4'' =
      [Frame legacy_frame]"
    by simp
  from r b c2 full room show ?thesis
    by simp
qed


section \<open>Keepalive: proofs\<close>

lemma removeDataClient_absent: "map_of (dataClients (removeDataClient cid s)) cid = None"
  by (simp add: removeDataClient_def log_Printf_def delete_conv' split: option.splits)

lemma readPumpData_exit_absent:
  "readPumpData_exit c conn s = (s', conn') \<Longrightarrow>
     map_of (dataClients s') (WSClient_ID c) = None \<and> ConnClosed conn'"
  by (auto simp add: readPumpData_exit_def removeDataClient_absent)

lemma readPumpData_loop_returns:
  "readPumpData_loop c events conn s = Returns (s', conn') \<Longrightarrow>
     map_of (dataClients s') (WSClient_ID c) = None \<and> ConnClosed conn'"
proof (induction events arbitrary: conn s)
  case Nil
  then show ?case
    by (simp add: readPumpData_exit_absent)
next
  case (Cons tev events)
  obtain t ev where tev: "tev = (t, ev)"
    by (cases tev)
  show ?case
  proof (cases "ReadDeadline conn < t")
    case True
    with Cons.prems tev show ?thesis
      by (simp add: readPumpData_exit_absent)
  next
    case False
    show ?thesis
    proof (cases ev)
      case InPong
      with Cons.prems tev False Cons.IH show ?thesis
        by simp
    next
      case (InBinary message)
      with Cons.prems tev False Cons.IH show ?thesis
        by simp
    next
      case (InText parsed)
      show ?thesis
      proof (cases parsed)
        case (Inl err)
        with Cons.prems tev False InText Cons.IH show ?thesis
          by simp
      next
        case (Inr msg)
        with Cons.prems tev False InText Cons.IH show ?thesis
          by (cases "handleDataMessage (unixMilli_of t) c msg s") simp_all
      qed
    next
      case (InError err unexpected)
      with Cons.prems tev False show ?thesis
        by (simp add: readPumpData_exit_absent)
    qed
  qed
qed

text \<open>In the code an inbound message is handled and leaves the read deadline where the
  start of the pump or the last pong put it.\<close>

lemma inbound_message_keeps_deadline:
  assumes "t \<le> now + 40 * Second"
  shows "readPumpData c now ((t, InBinary message) # events) conn s =
           readPumpData_loop c events (conn\<lparr>ReadDeadline := now + 40 * Second\<rparr>)
             (handleBinaryData (unixMilli_of t) c message s)"
  using assms by (simp add: readPumpData_def pongTimeout_def pingInterval_def)

lemma inbound_text_keeps_deadline:
  assumes "t \<le> now + 40 * Second"
    and "handleDataMessage (unixMilli_of t) c msg s = Returns s1"
  shows "readPumpData c now ((t, InText (Inr msg)) # events) conn s =
           readPumpData_loop c events (conn\<lparr>ReadDeadline := now + 40 * Second\<rparr>) s1"
  using assms by (simp add: readPumpData_def pongTimeout_def pingInterval_def)

text \<open>A peer that sends binary messages only, and no pong, is evicted with the deadline
  it had: handling a binary message never blocks.\<close>

lemma binary_only_evicted:
  assumes "\<forall>x \<in> set events. \<exists>m. snd x = InBinary m"
  shows "\<exists>s'. readPumpData_loop c events conn s = Returns (s', conn\<lparr>ConnClosed := True\<rparr>) \<and>
              map_of (dataClients s') (WSClient_ID c) = None"
  using assms
proof (induction events arbitrary: s)
  case Nil
  show ?case
    by (simp add: readPumpData_exit_def removeDataClient_absent)
next
  case (Cons tev events)
  obtain t ev where tev: "tev = (t, ev)"
    by (cases tev)
  from Cons.prems tev obtain m where m: "ev = InBinary m"
    by auto
  from Cons.prems have rest: "\<forall>x \<in> set events. \<exists>m. snd x = InBinary m"
    by simp
  show ?case
  proof (cases "ReadDeadline conn < t")
    case True
    with tev show ?thesis
      by (simp add: readPumpData_exit_def removeDataClient_absent)
  next
    case False
    with tev m Cons.IH [OF rest, of "handleBinaryData (unixMilli_of t) c m s"] show ?thesis
      by simp
  qed
qed

text \<open>
  Claim C8, as the code has it.  The write pump's ticker fires every 30 seconds and each
  tick writes one ping.  The read pump sets the read deadline 40 seconds (30 s + 10 s)
  after its start, and the pong handler sets it 40 seconds after each pong; an inbound
  binary or text message is handled and leaves the deadline where it was.  When nothing
  arrives from the peer before the deadline, and also when binary messages arrive but no
  pong, the read fails at that deadline, the pump ends, the socket is closed and the
  client is removed from the registry, where a lookup by its id then finds nothing; and
  whenever the pump ends, it ends that way.
\<close>

theorem keepalive_pong_deadline:
  "ticker_tick start (Suc n) - ticker_tick start n = 30 * Second \<and>
   writePumpData_step (ticker_tick start n) Ticked None conn =
     (True, [PingFrame], conn\<lparr>WriteDeadline := ticker_tick start n + 10 * Second\<rparr>) \<and>
   (t \<le> now + 40 * Second \<longrightarrow>
      readPumpData c now ((t, InPong) # events) conn s = readPumpData c t events conn s) \<and>
   (t \<le> now + 40 * Second \<longrightarrow>
      readPumpData c now ((t, InBinary message) # events) conn s =
        readPumpData_loop c events (conn\<lparr>ReadDeadline := now + 40 * Second\<rparr>)
          (handleBinaryData (unixMilli_of t) c message s)) \<and>
   (t \<le> now + 40 * Second \<and> handleDataMessage (unixMilli_of t) c msg s = Returns s1 \<longrightarrow>
      readPumpData c now ((t, InText (Inr msg)) # events) conn s =
        readPumpData_loop c events (conn\<lparr>ReadDeadline := now + 40 * Second\<rparr>) s1) \<and>
   (events = [] \<or> now + 40 * Second < fst (hd events) \<longrightarrow>
      readPumpData c now events conn s =
        Returns (removeDataClient (WSClient_ID c) s,
                 conn\<lparr>ReadDeadline := now + 40 * Second, ConnClosed := True\<rparr>)) \<and>
   ((\<forall>x \<in> set events. \<exists>m. snd x = InBinary m) \<longrightarrow>
      (\<exists>s'. readPumpData c now events conn s =
              Returns (s', conn\<lparr>ReadDeadline := now + 40 * Second, ConnClosed := True\<rparr>) \<and>
            map_of (dataClients s') (WSClient_ID c) = None)) \<and>
   map_of (dataClients (removeDataClient (WSClient_ID c) s)) (WSClient_ID c) = None \<and>
   (\<forall>s' conn'. readPumpData c now events conn s = Returns (s', conn') \<longrightarrow>
      map_of (dataClients s') (WSClient_ID c) = None \<and> ConnClosed conn')"
proof (intro conjI impI allI)
  show "ticker_tick start (Suc n) - ticker_tick start n = 30 * Second"
    by (simp add: ticker_tick_def pingInterval_def algebra_simps)
  show "writePumpData_step (ticker_tick start n) Ticked None conn =
     (True, [PingFrame], conn\<lparr>WriteDeadline := ticker_tick start n + 10 * Second\<rparr>)"
    by (simp add: writePumpData_step_def writeTimeout_def)
  show "readPumpData c now ((t, InPong) # events) conn s = readPumpData c t events conn s"
    if "t \<le> now + 40 * Second"
    using that by (simp add: readPumpData_def pongTimeout_def pingInterval_def)
  show "readPumpData c now ((t, InBinary message) # events) conn s =
        readPumpData_loop c events (conn\<lparr>ReadDeadline := now + 40 * Second\<rparr>)
          (handleBinaryData (unixMilli_of t) c message s)"
    if "t \<le> now + 40 * Second"
    using that by (rule inbound_message_keeps_deadline)
  show "readPumpData c now ((t, InText (Inr msg)) # events) conn s =
        readPumpData_loop c events (conn\<lparr>ReadDeadline := now + 40 * Second\<rparr>) s1"
    if "t \<le> now + 40 * Second \<and> handleDataMessage (unixMilli_of t) c msg s = Returns s1"
    using that by (simp add: inbound_text_keeps_deadline)
  show "readPumpData c now events conn s =
        Returns (removeDataClient (WSClient_ID c) s,
                 conn\<lparr>ReadDeadline := now + 40 * Second, ConnClosed := True\<rparr>)"
    if "events = [] \<or> now + 40 * Second < fst (hd events)"
  proof (cases events)
    case Nil
    then show ?thesis
      by (simp add: readPumpData_def readPumpData_exit_def pongTimeout_def pingInterval_def)
  next
    case (Cons tev rest)
    with that show ?thesis
      by (cases tev)
        (simp add: readPumpData_def readPumpData_exit_def pongTimeout_def pingInterval_def)
  qed
  show "\<exists>s'. readPumpData c now events conn s =
              Returns (s', conn\<lparr>ReadDeadline := now + 40 * Second, ConnClosed := True\<rparr>) \<and>
            map_of (dataClients s') (WSClient_ID c) = None"
    if "\<forall>x \<in> set events. \<exists>m. snd x = InBinary m"
    using binary_only_evicted [OF that, of c "conn\<lparr>ReadDeadline := now + 40 * Second\<rparr>" s]
    by (simp add: readPumpData_def pongTimeout_def pingInterval_def)
  show "map_of (dataClients (removeDataClient (WSClient_ID c) s)) (WSClient_ID c) = None"
    by (rule removeDataClient_absent)
  show "map_of (dataClients s') (WSClient_ID c) = None" "ConnClosed conn'"
    if "readPumpData c now events conn s = Returns (s', conn')" for s' conn'
    using readPumpData_loop_returns [OF that [unfolded readPumpData_def]] by simp_all
qed

theorem keepalive_pong_deadline_witness:
  "map_of (dataClients first_robot) ''r1'' \<noteq> None \<and>
   readPumpData robot_r1 0 [] fresh_conn first_robot =
     Returns (removeDataClient ''r1'' first_robot,
              fresh_conn\<lparr>ReadDeadline := 40 * Second, ConnClosed := True\<rparr>) \<and>
   map_of (dataClients (removeDataClient ''r1'' first_robot)) ''r1'' = None \<and>
   readPumpData robot_r1 0 [(35 * Second, InPong), (80 * Second, InPong)] fresh_conn first_robot =
     Returns (removeDataClient ''r1'' first_robot,
              fresh_conn\<lparr>ReadDeadline := 75 * Second, ConnClosed := True\<rparr>) \<and>
   (\<exists>s'. readPumpData robot_r1 0
            [(20 * Second, InBinary legacy_frame), (39 * Second, InBinary legacy_frame)]
            fresh_conn first_robot =
          Returns (s', fresh_conn\<lparr>ReadDeadline := 40 * Second, ConnClosed := True\<rparr>) \<and>
        map_of (dataClients s') ''r1'' = None) \<and>
   ticker_tick 0 1 = 30 * Second"
proof -
  have reg: "map_of (dataClients first_robot) ''r1'' \<noteq> None"
    by (simp add: first_robot_def)
  have c: "WSClient_ID robot_r1 = ''r1''"
    by (simp add: robot_r1_def)
  note k0 = keepalive_pong_deadline [where c = robot_r1 and now = 0 and events = "[]" and
      conn = fresh_conn and s = first_robot and start = 0 and n = 0, unfolded c]
  note k1 = keepalive_pong_deadline [where c = robot_r1 and now = 0 and t = "35 * Second" and
      events = "[(80 * Second, InPong)]" and conn = fresh_conn and s = first_robot, unfolded c]
  note k2 = keepalive_pong_deadline [where c = robot_r1 and now = "35 * Second" and
      events = "[(80 * Second, InPong)]" and conn = fresh_conn and s = first_robot, unfolded c]
  note k3 = keepalive_pong_deadline [where c = robot_r1 and now = 0 and
      events = "[(20 * Second, InBinary legacy_frame), (39 * Second, InBinary legacy_frame)]" and
      conn = fresh_conn and s = first_robot, unfolded c]
  have sec: "(0::int) < Second"
    by (simp add: Second_def)
  from k0 have r0: "readPumpData robot_r1 0 [] fresh_conn first_robot =
     Returns (removeDataClient ''r1'' first_robot,
              fresh_conn\<lparr>ReadDeadline := 40 * Second, ConnClosed := True\<rparr>)"
    and ab: "map_of (dataClients (removeDataClient ''r1'' first_robot)) ''r1'' = None"
    and tick: "ticker_tick 0 1 = 30 * Second"
    by (simp_all add: ticker_tick_def)
  from k1 sec have "readPumpData robot_r1 0 [(35 * Second, InPong), (80 * Second, InPong)]
      fresh_conn first_robot =
      readPumpData robot_r1 (35 * Second) [(80 * Second, InPong)] fresh_conn first_robot"
    by simp
  also from k2 sec have "\<dots> = Returns (removeDataClient ''r1'' first_robot,
              fresh_conn\<lparr>ReadDeadline := 75 * Second, ConnClosed := True\<rparr>)"
    by simp
  finally have r1: "readPumpData robot_r1 0 [(35 * Second, InPong), (80 * Second, InPong)]
      fresh_conn first_robot =
      Returns (removeDataClient ''r1'' first_robot,
              fresh_conn\<lparr>ReadDeadline := 75 * Second, ConnClosed := True\<rparr>)" .
  from k3 have r3: "\<exists>s'. readPumpData robot_r1 0
            [(20 * Second, InBinary legacy_frame), (39 * Second, InBinary legacy_frame)]
            fresh_conn first_robot =
          Returns (s', fresh_conn\<lparr>ReadDeadline := 40 * Second, ConnClosed := True\<rparr>) \<and>
        map_of (dataClients s') ''r1'' = None"
    by simp
  from reg r0 ab r1 r3 tick show ?thesis
    by blast
qed

text \<open>
  The claim as the specification states it, with the deadline 40 seconds after the last
  probe reply or inbound message, fails.  A binary message arrives 20 seconds after the
  start of the pump and a pong at 50 seconds, each within 40 seconds of the frame before
  it; the deadline stays at 40 seconds, the pong is never read, and the client is
  removed.  With a pong in place of the message the deadline moves to 60 seconds and
  the pong at 50 seconds is read.
\<close>

theorem keepalive_message_counterexample:
  "readPumpData robot_r1 0 [(20 * Second, InBinary legacy_frame), (50 * Second, InPong)]
     fresh_conn first_robot =
     Returns (removeDataClient ''r1''
                (handleBinaryData (unixMilli_of (20 * Second)) robot_r1 legacy_frame first_robot),
              fresh_conn\<lparr>ReadDeadline := 40 * Second, ConnClosed := True\<rparr>) \<and>
   50 * Second \<le> 20 * Second + 40 * Second \<and> 40 * Second < 50 * Second \<and>
   map_of (dataClients (removeDataClient ''r1''
      (handleBinaryData (unixMilli_of (20 * Second)) robot_r1 legacy_frame first_robot))) ''r1''
     = None \<and>
   readPumpData robot_r1 0 [(20 * Second, InPong), (50 * Second, InPong)]
     fresh_conn first_robot =
     Returns (removeDataClient ''r1'' first_robot,
              fresh_conn\<lparr>ReadDeadline := 90 * Second, ConnClosed := True\<rparr>)"
  by (simp add: readPumpData_def readPumpData_exit_def pongTimeout_def pingInterval_def
      Second_def robot_r1_def removeDataClient_absent)

end
